theory Spec2Isabelle
  imports Complex_Main
begin

section \<open>JavaScript numbers\<close>

text \<open>
  A JavaScript number is a finite value, one of the two infinities, or NaN. Finite values
  are kept as exact reals: rounding, overflow to an infinity and the sign of zero are not
  modelled. The special values follow IEEE 754 as JavaScript applies it: NaN makes every
  comparison false and passes through arithmetic, \<open>Math.max\<close> and \<open>Math.min\<close>.
\<close>

datatype jsnum = Fin real | PInf | NInf | NaN

fun js_neg :: "jsnum \<Rightarrow> jsnum" where
  "js_neg (Fin x) = Fin (- x)"
| "js_neg PInf = NInf"
| "js_neg NInf = PInf"
| "js_neg NaN = NaN"

fun js_add :: "jsnum \<Rightarrow> jsnum \<Rightarrow> jsnum" where
  "js_add NaN _ = NaN"
| "js_add _ NaN = NaN"
| "js_add (Fin x) (Fin y) = Fin (x + y)"
| "js_add (Fin _) PInf = PInf"
| "js_add (Fin _) NInf = NInf"
| "js_add PInf (Fin _) = PInf"
| "js_add NInf (Fin _) = NInf"
| "js_add PInf PInf = PInf"
| "js_add NInf NInf = NInf"
| "js_add PInf NInf = NaN"
| "js_add NInf PInf = NaN"

definition js_sub :: "jsnum \<Rightarrow> jsnum \<Rightarrow> jsnum" where
  "js_sub a b = js_add a (js_neg b)"

text \<open>The sign of a product or quotient with an infinite operand.\<close>

definition signed_inf :: "bool \<Rightarrow> jsnum" where
  "signed_inf positive = (if positive then PInf else NInf)"

fun js_mul :: "jsnum \<Rightarrow> jsnum \<Rightarrow> jsnum" where
  "js_mul NaN _ = NaN"
| "js_mul _ NaN = NaN"
| "js_mul (Fin x) (Fin y) = Fin (x * y)"
| "js_mul (Fin x) PInf = (if x = 0 then NaN else signed_inf (0 < x))"
| "js_mul (Fin x) NInf = (if x = 0 then NaN else signed_inf (x < 0))"
| "js_mul PInf (Fin y) = (if y = 0 then NaN else signed_inf (0 < y))"
| "js_mul NInf (Fin y) = (if y = 0 then NaN else signed_inf (y < 0))"
| "js_mul PInf PInf = PInf"
| "js_mul NInf NInf = PInf"
| "js_mul PInf NInf = NInf"
| "js_mul NInf PInf = NInf"

text \<open>
  Division by a zero takes the zero as \<open>+0\<close>: a nonzero finite dividend gives the infinity
  of its own sign, and \<open>0 / 0\<close> is NaN.
\<close>

fun js_div :: "jsnum \<Rightarrow> jsnum \<Rightarrow> jsnum" where
  "js_div NaN _ = NaN"
| "js_div _ NaN = NaN"
| "js_div (Fin x) (Fin y) =
     (if y = 0 then (if x = 0 then NaN else signed_inf (0 < x)) else Fin (x / y))"
| "js_div (Fin _) PInf = Fin 0"
| "js_div (Fin _) NInf = Fin 0"
| "js_div PInf (Fin y) = signed_inf (0 \<le> y)"
| "js_div NInf (Fin y) = signed_inf (y < 0)"
| "js_div PInf PInf = NaN"
| "js_div PInf NInf = NaN"
| "js_div NInf PInf = NaN"
| "js_div NInf NInf = NaN"

fun js_abs :: "jsnum \<Rightarrow> jsnum" where
  "js_abs (Fin x) = Fin \<bar>x\<bar>"
| "js_abs PInf = PInf"
| "js_abs NInf = PInf"
| "js_abs NaN = NaN"

fun js_lt :: "jsnum \<Rightarrow> jsnum \<Rightarrow> bool" where
  "js_lt NaN _ = False"
| "js_lt _ NaN = False"
| "js_lt (Fin x) (Fin y) = (x < y)"
| "js_lt (Fin _) PInf = True"
| "js_lt (Fin _) NInf = False"
| "js_lt PInf _ = False"
| "js_lt NInf NInf = False"
| "js_lt NInf _ = True"

text \<open>Strict equality \<open>===\<close> on numbers: NaN is not equal to itself.\<close>

definition js_eq :: "jsnum \<Rightarrow> jsnum \<Rightarrow> bool" where
  "js_eq a b = (a \<noteq> NaN \<and> a = b)"

definition js_le :: "jsnum \<Rightarrow> jsnum \<Rightarrow> bool" where
  "js_le a b = (js_lt a b \<or> js_eq a b)"

definition js_gt :: "jsnum \<Rightarrow> jsnum \<Rightarrow> bool" where
  "js_gt a b = js_lt b a"

definition js_ge :: "jsnum \<Rightarrow> jsnum \<Rightarrow> bool" where
  "js_ge a b = js_le b a"

definition js_max :: "jsnum \<Rightarrow> jsnum \<Rightarrow> jsnum" where
  "js_max a b = (if a = NaN \<or> b = NaN then NaN else if js_lt a b then b else a)"

definition js_min :: "jsnum \<Rightarrow> jsnum \<Rightarrow> jsnum" where
  "js_min a b = (if a = NaN \<or> b = NaN then NaN else if js_lt b a then b else a)"

definition js_isNaN :: "jsnum \<Rightarrow> bool" where
  "js_isNaN a = (a = NaN)"

definition js_isFinite :: "jsnum \<Rightarrow> bool" where
  "js_isFinite a = (case a of Fin _ \<Rightarrow> True | _ \<Rightarrow> False)"

section \<open>Configuration constants\<close>

definition ZOOM_MIN :: jsnum where "ZOOM_MIN = Fin 1"
definition ZOOM_MAX :: jsnum where "ZOOM_MAX = Fin (5 / 2)"
definition ZOOM_DEFAULT :: jsnum where "ZOOM_DEFAULT = Fin 1"
definition SCROLL_SPEED :: jsnum where "SCROLL_SPEED = Fin (3 / 2)"
definition SWIPE_MIN_DISTANCE :: jsnum where "SWIPE_MIN_DISTANCE = Fin 50"
definition SWIPE_MAX_DURATION :: jsnum where "SWIPE_MAX_DURATION = Fin 500"

section \<open>Data model of the image modal\<close>

text \<open>
  The repository holds two versions of \<open>ImageModalController\<close>. The model follows the
  longer one. The shorter one has the same index update, zoom toggle, pan bounds,
  clamping, navigation and animation handlers; it lacks image preloading, swipe gestures
  and the \<open>hasMoved\<close> flag of a drag.
\<close>

record CarouselImage =
  src :: string
  srcOriginal :: string
  alt :: string

record AdditionalPhoto =
  photoSrc :: string
  photoSrcOriginal :: "string option"
  photoAlt :: string

record ImageData =
  dataSrc :: string
  dataSrcOriginal :: "string option"
  dataAlt :: string
  additionalPhotos :: "AdditionalPhoto list option"

record DragState =
  isDragging :: bool
  startX :: jsnum
  startY :: jsnum
  hasMoved :: bool

record PanBounds =
  maxX :: jsnum
  maxY :: jsnum

text \<open>
  An \<open>animationend\<close> listener registered on the modal image: the closure created by
  \<open>startSlideOutAnimation\<close>, which keeps the direction, or the one it registers in turn.
\<close>

datatype listener = OnSlideOutEnd int | OnSlideInEnd

text \<open>
  The controller's fields, followed by the parts of the page it writes and reads back or
  that the specification speaks of: the modal image's source, the caption, the overlay's
  \<open>display\<close>, the body's \<open>overflow\<close>, the three CSS variables of the transform and the
  listeners waiting for \<open>animationend\<close>. Writes of cursor, icon, CSS classes and the
  visibility of caption and arrows depend on nothing but the zoom and drag state and are
  read by no code; they are left out. Of the fields that track the mouse and the touch,
  the model keeps those that \<open>handleSwipeGesture\<close> reads or writes; the listeners that tell
  a click from a drag with timers are not modelled.
\<close>

record Viewer =
  currentImageIndex :: int
  allImages :: "CarouselImage list"
  isAnimating :: bool
  imagePreloadCache :: "string set"
  zoomScale :: jsnum
  panX :: jsnum
  panY :: jsnum
  dragState :: DragState
  canToggleZoomOnClick :: bool
  touchStartX :: jsnum
  touchStartY :: jsnum
  imgSrc :: string
  captionText :: string
  modalDisplay :: string
  bodyOverflow :: string
  cssTransform :: "jsnum \<times> jsnum \<times> jsnum"
  listeners :: "listener list"

text \<open>
  What the constructor receives and finds: the base URL, the artwork's data and, for each
  element it looks up once by id, whether the page has it. None of these changes later.
\<close>

record Config =
  baseUrl :: string
  imageData :: ImageData
  modalElement :: bool
  modalImageElement :: bool
  modalCaptionElement :: bool

text \<open>What the browser reports when the pan bounds are computed.\<close>

record Layout =
  innerWidth :: jsnum
  innerHeight :: jsnum
  naturalWidth :: jsnum
  naturalHeight :: jsnum
  rectWidth :: jsnum
  rectHeight :: jsnum

text \<open>The clicked thumbnail: its \<open>data-src-original\<close> attribute, if any, and its \<open>src\<close>.\<close>

record ClickedImage =
  datasetSrcOriginal :: "string option"
  elementSrc :: string

text \<open>
  Reading a property of \<open>undefined\<close> throws. A thrown error ends the run of the model; what
  the page does after an uncaught exception is not modelled.
\<close>

datatype error = TypeError

definition initialViewer :: Viewer where
  "initialViewer = \<lparr>
     currentImageIndex = 0, allImages = [], isAnimating = False, imagePreloadCache = {},
     zoomScale = ZOOM_DEFAULT, panX = Fin 0, panY = Fin 0,
     dragState = \<lparr>isDragging = False, startX = Fin 0, startY = Fin 0, hasMoved = False\<rparr>,
     canToggleZoomOnClick = False, touchStartX = Fin 0, touchStartY = Fin 0,
     imgSrc = [], captionText = [], modalDisplay = [], bodyOverflow = [],
     cssTransform = (Fin 1, Fin 0, Fin 0), listeners = []\<rparr>"

section \<open>Building and showing the carousel\<close>

text \<open>\<open>a || b\<close> on an optional string: \<open>undefined\<close> and the empty string are falsy.\<close>

definition or_else :: "string option \<Rightarrow> string \<Rightarrow> string" where
  "or_else a b = (case a of None \<Rightarrow> b | Some v \<Rightarrow> if v = [] then b else v)"

definition ensureElementsReady :: "Config \<Rightarrow> bool" where
  "ensureElementsReady cfg =
     (modalElement cfg \<and> modalImageElement cfg \<and> modalCaptionElement cfg)"

definition buildImageUrl :: "Config \<Rightarrow> string \<Rightarrow> string" where
  "buildImageUrl cfg path = baseUrl cfg @ path"

definition collectAllImages :: "Config \<Rightarrow> Viewer \<Rightarrow> Viewer" where
  "collectAllImages cfg s =
     (let d = imageData cfg;
          mainImage = \<lparr>src = buildImageUrl cfg (dataSrc d),
                       srcOriginal = buildImageUrl cfg (or_else (dataSrcOriginal d) (dataSrc d)),
                       alt = dataAlt d\<rparr>;
          photos = (case additionalPhotos d of None \<Rightarrow> [] | Some ps \<Rightarrow> ps)
      in s\<lparr>allImages := mainImage #
            map (\<lambda>photo. \<lparr>src = buildImageUrl cfg (photoSrc photo),
                           srcOriginal = buildImageUrl cfg
                             (or_else (photoSrcOriginal photo) (photoSrc photo)),
                           alt = photoAlt photo\<rparr>) photos\<rparr>)"

definition preloadImageAsset :: "string \<Rightarrow> Viewer \<Rightarrow> Viewer" where
  "preloadImageAsset url s =
     (if url = [] \<or> url \<in> imagePreloadCache s then s
      else s\<lparr>imagePreloadCache := insert url (imagePreloadCache s)\<rparr>)"

definition preloadCarouselImages :: "Viewer \<Rightarrow> Viewer" where
  "preloadCarouselImages s =
     (if allImages s = [] then s
      else fold (\<lambda>image. preloadImageAsset (srcOriginal image)) (allImages s) s)"

text \<open>\<open>Array.prototype.findIndex\<close>: the first index whose element satisfies the test, or -1.\<close>

fun findIndex :: "('a \<Rightarrow> bool) \<Rightarrow> 'a list \<Rightarrow> int" where
  "findIndex P [] = - 1"
| "findIndex P (x # xs) =
     (if P x then 0 else (let r = findIndex P xs in if r < 0 then - 1 else r + 1))"

definition findImageIndex :: "string \<Rightarrow> Viewer \<Rightarrow> int" where
  "findImageIndex clickedSrc s =
     findIndex (\<lambda>image. src image = clickedSrc \<or> srcOriginal image = clickedSrc) (allImages s)"

definition showCurrentImage :: "Config \<Rightarrow> Viewer \<Rightarrow> error + Viewer" where
  "showCurrentImage cfg s =
     (if \<not> ensureElementsReady cfg \<or> allImages s = [] then Inr s
      else if 0 \<le> currentImageIndex s \<and> currentImageIndex s < int (length (allImages s)) then
        (let currentImage = allImages s ! nat (currentImageIndex s)
         in Inr (s\<lparr>imgSrc := srcOriginal currentImage, captionText := alt currentImage\<rparr>))
      else Inl TypeError)"

definition showModal :: "Config \<Rightarrow> Viewer \<Rightarrow> Viewer" where
  "showModal cfg s =
     (if \<not> modalElement cfg then s
      else s\<lparr>modalDisplay := ''block'', bodyOverflow := ''hidden''\<rparr>)"

definition hideModal :: "Config \<Rightarrow> Viewer \<Rightarrow> Viewer" where
  "hideModal cfg s = (if \<not> modalElement cfg then s else s\<lparr>modalDisplay := ''none''\<rparr>)"

definition enableBodyScroll :: "Viewer \<Rightarrow> Viewer" where
  "enableBodyScroll s = s\<lparr>bodyOverflow := ''auto''\<rparr>"

definition closeModal :: "Config \<Rightarrow> Viewer \<Rightarrow> Viewer" where
  "closeModal cfg s = (if \<not> modalElement cfg then s else enableBodyScroll (hideModal cfg s))"

section \<open>Zoom and pan\<close>

definition isZoomedIn :: "Viewer \<Rightarrow> bool" where
  "isZoomedIn s = js_gt (zoomScale s) ZOOM_MIN"

definition applyTransform :: "Config \<Rightarrow> Viewer \<Rightarrow> Viewer" where
  "applyTransform cfg s =
     (if \<not> modalImageElement cfg then s
      else s\<lparr>cssTransform := (zoomScale s, panX s, panY s)\<rparr>)"

definition resetZoom :: "Config \<Rightarrow> Viewer \<Rightarrow> Viewer" where
  "resetZoom cfg s =
     applyTransform cfg (s\<lparr>zoomScale := ZOOM_DEFAULT, panX := Fin 0, panY := Fin 0\<rparr>)"

definition calculateBoundsFromSize ::
  "Viewer \<Rightarrow> jsnum \<Rightarrow> jsnum \<Rightarrow> jsnum \<Rightarrow> jsnum \<Rightarrow> PanBounds" where
  "calculateBoundsFromSize s baseWidth baseHeight viewportWidth viewportHeight =
     (let zoomedWidth = js_mul baseWidth (zoomScale s);
          zoomedHeight = js_mul baseHeight (zoomScale s);
          excessWidth = js_max (Fin 0) (js_sub zoomedWidth viewportWidth);
          excessHeight = js_max (Fin 0) (js_sub zoomedHeight viewportHeight)
      in if js_eq excessWidth (Fin 0) \<and> js_eq excessHeight (Fin 0)
         then \<lparr>maxX = Fin 0, maxY = Fin 0\<rparr>
         else \<lparr>maxX = (if js_gt excessWidth (Fin 0) then js_div excessWidth (Fin 2) else Fin 0),
               maxY = (if js_gt excessHeight (Fin 0) then js_div excessHeight (Fin 2) else Fin 0)\<rparr>)"

definition calculatePanBounds :: "Config \<Rightarrow> Layout \<Rightarrow> Viewer \<Rightarrow> PanBounds option" where
  "calculatePanBounds cfg lay s =
     (if \<not> modalImageElement cfg \<or> \<not> isZoomedIn s then None
      else
        let viewportWidth = innerWidth lay; viewportHeight = innerHeight lay in
        if js_le (naturalWidth lay) (Fin 0) \<or> js_le (naturalHeight lay) (Fin 0) then
          (let baseWidth = js_div (rectWidth lay) (zoomScale s);
               baseHeight = js_div (rectHeight lay) (zoomScale s)
           in if js_le baseWidth (Fin 0) \<or> js_le baseHeight (Fin 0) \<or>
                 js_isNaN baseWidth \<or> js_isNaN baseHeight
              then None
              else Some (calculateBoundsFromSize s baseWidth baseHeight
                           viewportWidth viewportHeight))
        else
          let maxHeight =
                (if js_ge (innerWidth lay) (Fin 1024) then js_mul viewportHeight (Fin (9 / 10))
                 else if js_ge (innerWidth lay) (Fin 768) then js_mul viewportHeight (Fin (8 / 10))
                 else viewportHeight);
              imageAspect = js_div (naturalWidth lay) (naturalHeight lay);
              maxWidthAspect = js_div viewportWidth maxHeight;
              displayedWidth =
                (if js_gt imageAspect maxWidthAspect then viewportWidth
                 else js_mul maxHeight imageAspect);
              displayedHeight =
                (if js_gt imageAspect maxWidthAspect then js_div viewportWidth imageAspect
                 else maxHeight)
          in Some (calculateBoundsFromSize s displayedWidth displayedHeight
                     viewportWidth viewportHeight))"

definition constrainPan :: "Config \<Rightarrow> Layout \<Rightarrow> Viewer \<Rightarrow> Viewer" where
  "constrainPan cfg lay s =
     (if \<not> modalImageElement cfg \<or> \<not> isZoomedIn s then s\<lparr>panX := Fin 0, panY := Fin 0\<rparr>
      else case calculatePanBounds cfg lay s of
        None \<Rightarrow> s\<lparr>panX := Fin 0, panY := Fin 0\<rparr>
      | Some bounds \<Rightarrow>
          (let px = js_max (js_neg (maxX bounds)) (js_min (maxX bounds) (panX s));
               py = js_max (js_neg (maxY bounds)) (js_min (maxY bounds) (panY s))
           in s\<lparr>panX := (if js_isNaN px \<or> \<not> js_isFinite px then Fin 0 else px),
                 panY := (if js_isNaN py \<or> \<not> js_isFinite py then Fin 0 else py)\<rparr>))"

definition toggleZoom :: "Config \<Rightarrow> Layout \<Rightarrow> Viewer \<Rightarrow> Viewer" where
  "toggleZoom cfg lay s =
     (let s1 = (if js_le (zoomScale s) ZOOM_MIN then s\<lparr>zoomScale := ZOOM_MAX\<rparr>
                else s\<lparr>zoomScale := ZOOM_MIN\<rparr>);
          s2 = s1\<lparr>panX := Fin 0, panY := Fin 0\<rparr>;
          s3 = (if isZoomedIn s2 then constrainPan cfg lay s2 else s2)
      in applyTransform cfg s3)"

definition startDrag :: "jsnum \<Rightarrow> jsnum \<Rightarrow> Viewer \<Rightarrow> Viewer" where
  "startDrag clientX clientY s =
     (if \<not> isZoomedIn s then s
      else s\<lparr>dragState := (dragState s)\<lparr>isDragging := True, hasMoved := False,
                 startX := js_sub clientX (panX s), startY := js_sub clientY (panY s)\<rparr>\<rparr>)"

definition onDrag :: "Config \<Rightarrow> Layout \<Rightarrow> jsnum \<Rightarrow> jsnum \<Rightarrow> Viewer \<Rightarrow> Viewer" where
  "onDrag cfg lay clientX clientY s =
     (if \<not> isDragging (dragState s) \<or> \<not> isZoomedIn s then s
      else
        let deltaX = js_abs (js_sub clientX (js_add (startX (dragState s)) (panX s)));
            deltaY = js_abs (js_sub clientY (js_add (startY (dragState s)) (panY s)));
            s1 = (if js_gt deltaX (Fin 5) \<or> js_gt deltaY (Fin 5)
                  then s\<lparr>dragState := (dragState s)\<lparr>hasMoved := True\<rparr>\<rparr> else s);
            s2 = s1\<lparr>panX := js_sub clientX (startX (dragState s1)),
                     panY := js_sub clientY (startY (dragState s1))\<rparr>
        in applyTransform cfg (constrainPan cfg lay s2))"

definition endDrag :: "Viewer \<Rightarrow> bool \<times> Viewer" where
  "endDrag s =
     (isDragging (dragState s) \<and> hasMoved (dragState s),
      s\<lparr>dragState := (dragState s)\<lparr>isDragging := False, hasMoved := False\<rparr>\<rparr>)"

definition handleWheel :: "Config \<Rightarrow> Layout \<Rightarrow> jsnum \<Rightarrow> jsnum \<Rightarrow> Viewer \<Rightarrow> Viewer" where
  "handleWheel cfg lay deltaX deltaY s =
     (if \<not> isZoomedIn s then s
      else
        let s1 = s\<lparr>panX := js_add (panX s) (js_mul deltaX SCROLL_SPEED),
                   panY := js_add (panY s) (js_mul deltaY SCROLL_SPEED)\<rparr>
        in applyTransform cfg (constrainPan cfg lay s1))"

section \<open>Navigation\<close>

definition updateImageIndex :: "int \<Rightarrow> Viewer \<Rightarrow> Viewer" where
  "updateImageIndex direction s =
     (let i = currentImageIndex s + direction in
      if i \<ge> int (length (allImages s)) then s\<lparr>currentImageIndex := 0\<rparr>
      else if i < 0 then s\<lparr>currentImageIndex := int (length (allImages s)) - 1\<rparr>
      else s\<lparr>currentImageIndex := i\<rparr>)"

definition startSlideOutAnimation :: "Config \<Rightarrow> int \<Rightarrow> Viewer \<Rightarrow> Viewer" where
  "startSlideOutAnimation cfg direction s =
     (if \<not> modalImageElement cfg then s
      else s\<lparr>listeners := listeners s @ [OnSlideOutEnd direction]\<rparr>)"

definition changeImage :: "Config \<Rightarrow> int \<Rightarrow> Viewer \<Rightarrow> Viewer" where
  "changeImage cfg direction s =
     (if length (allImages s) \<le> 1 \<or> isAnimating s \<or> \<not> modalImageElement cfg then s
      else startSlideOutAnimation cfg direction (s\<lparr>isAnimating := True\<rparr>))"

definition onSlideInEnd :: "Config \<Rightarrow> Viewer \<Rightarrow> Viewer" where
  "onSlideInEnd cfg s =
     (if \<not> modalImageElement cfg then s
      else s\<lparr>listeners := remove1 OnSlideInEnd (listeners s), isAnimating := False\<rparr>)"

definition onSlideOutEnd :: "Config \<Rightarrow> int \<Rightarrow> Viewer \<Rightarrow> error + Viewer" where
  "onSlideOutEnd cfg direction s =
     (if \<not> modalImageElement cfg then Inr s
      else
        let s1 = s\<lparr>listeners := remove1 (OnSlideOutEnd direction) (listeners s)\<rparr>;
            s2 = updateImageIndex direction s1
        in case showCurrentImage cfg s2 of
             Inl e \<Rightarrow> Inl e
           | Inr s3 \<Rightarrow> Inr (s3\<lparr>listeners := listeners s3 @ [OnSlideInEnd]\<rparr>))"

fun runListener :: "Config \<Rightarrow> listener \<Rightarrow> Viewer \<Rightarrow> error + Viewer" where
  "runListener cfg (OnSlideOutEnd direction) s = onSlideOutEnd cfg direction s"
| "runListener cfg OnSlideInEnd s = Inr (onSlideInEnd cfg s)"

text \<open>
  An \<open>animationend\<close> event runs the listeners registered when it is dispatched, in order,
  except those removed meanwhile; a listener added during the dispatch waits for the next
  event.
\<close>

fun dispatchAnimationEnd :: "Config \<Rightarrow> listener list \<Rightarrow> Viewer \<Rightarrow> error + Viewer" where
  "dispatchAnimationEnd cfg [] s = Inr s"
| "dispatchAnimationEnd cfg (l # ls) s =
     (if l \<in> set (listeners s) then
        (case runListener cfg l s of
           Inl e \<Rightarrow> Inl e
         | Inr s' \<Rightarrow> dispatchAnimationEnd cfg ls s')
      else dispatchAnimationEnd cfg ls s)"

definition animationEnd :: "Config \<Rightarrow> Viewer \<Rightarrow> error + Viewer" where
  "animationEnd cfg s = dispatchAnimationEnd cfg (listeners s) s"

definition openModal :: "Config \<Rightarrow> ClickedImage \<Rightarrow> Viewer \<Rightarrow> error + Viewer" where
  "openModal cfg img s =
     (if \<not> ensureElementsReady cfg then Inr s
      else
        let s1 = preloadCarouselImages (collectAllImages cfg s) in
        if allImages s1 = [] then Inr s1
        else
          let clickedSrc = or_else (datasetSrcOriginal img) (elementSrc img);
              foundIndex = findImageIndex clickedSrc s1;
              s2 = s1\<lparr>currentImageIndex := max 0 foundIndex\<rparr>
          in case showCurrentImage cfg s2 of
               Inl e \<Rightarrow> Inl e
             | Inr s3 \<Rightarrow> Inr (resetZoom cfg (showModal cfg s3)))"

definition handleSwipeGesture ::
  "Config \<Rightarrow> jsnum \<Rightarrow> jsnum \<Rightarrow> jsnum \<Rightarrow> Viewer \<Rightarrow> bool \<times> Viewer" where
  "handleSwipeGesture cfg endX endY duration s =
     (if isZoomedIn s then (False, s)
      else
        let deltaX = js_sub endX (touchStartX s);
            deltaY = js_sub endY (touchStartY s)
        in if js_lt (js_abs deltaX) SWIPE_MIN_DISTANCE \<or>
              js_le (js_abs deltaX) (js_abs deltaY) \<or>
              js_gt duration SWIPE_MAX_DURATION
           then (False, s)
           else
             let direction = (if js_lt deltaX (Fin 0) then 1 else - 1)
             in (True, (changeImage cfg direction s)\<lparr>canToggleZoomOnClick := False\<rparr>))"

definition handleKeyDown :: "Config \<Rightarrow> string \<Rightarrow> Viewer \<Rightarrow> Viewer" where
  "handleKeyDown cfg key s =
     (if \<not> modalElement cfg \<or> modalDisplay s \<noteq> ''block'' then s
      else if key = ''Escape'' then closeModal cfg s
      else if key = ''ArrowLeft'' then changeImage cfg (- 1) s
      else if key = ''ArrowRight'' then changeImage cfg 1 s
      else s)"

section \<open>The viewer as a transition system\<close>

text \<open>
  One event per operation of the controller, whichever listener calls it. An event that
  reads the layout carries what the browser reports at that moment.
\<close>

datatype event =
    Open ClickedImage
  | Navigate int
  | Close
  | ToggleZoom Layout
  | StartDrag jsnum jsnum
  | Drag Layout jsnum jsnum
  | EndDrag
  | Wheel Layout jsnum jsnum
  | Swipe jsnum jsnum jsnum
  | KeyDown string
  | AnimationEnd

fun step :: "Config \<Rightarrow> Viewer \<Rightarrow> event \<Rightarrow> error + Viewer" where
  "step cfg s (Open img) = openModal cfg img s"
| "step cfg s (Navigate direction) = Inr (changeImage cfg direction s)"
| "step cfg s Close = Inr (closeModal cfg s)"
| "step cfg s (ToggleZoom lay) = Inr (toggleZoom cfg lay s)"
| "step cfg s (StartDrag x y) = Inr (startDrag x y s)"
| "step cfg s (Drag lay x y) = Inr (onDrag cfg lay x y s)"
| "step cfg s EndDrag = Inr (snd (endDrag s))"
| "step cfg s (Wheel lay dx dy) = Inr (handleWheel cfg lay dx dy s)"
| "step cfg s (Swipe endX endY duration) = Inr (snd (handleSwipeGesture cfg endX endY duration s))"
| "step cfg s (KeyDown key) = Inr (handleKeyDown cfg key s)"
| "step cfg s AnimationEnd = animationEnd cfg s"

fun run :: "Config \<Rightarrow> Viewer \<Rightarrow> event list \<Rightarrow> error + Viewer" where
  "run cfg s [] = Inr s"
| "run cfg s (e # es) = (case step cfg s e of Inl err \<Rightarrow> Inl err | Inr s' \<Rightarrow> run cfg s' es)"

section \<open>Language switcher\<close>







subsection \<open>First version: two fixed languages\<close>




subsection \<open>Second version: a table of languages\<close>







section \<open>Predicates of the specification\<close>


text \<open>
  The two steps \<open>constrainPan\<close> applies to each pan component, under one name for the
  proofs: clamping into the symmetric range, then replacing what is not finite by zero.
\<close>

definition clampFinite :: "jsnum \<Rightarrow> jsnum \<Rightarrow> jsnum" where
  "clampFinite m p =
     (let c = js_max (js_neg m) (js_min m p)
      in if js_isNaN c \<or> \<not> js_isFinite c then Fin 0 else c)"


text \<open>Whenever the zoom is \<open>1\<close> the pan is \<open>(0, 0)\<close>.\<close>

definition panZeroWhenUnzoomed :: "Viewer \<Rightarrow> bool" where
  "panZeroWhenUnzoomed s = (zoomScale s = Fin 1 \<longrightarrow> panX s = Fin 0 \<and> panY s = Fin 0)"

text \<open>
  At most one navigation is in flight: while the flag \<open>isAnimating\<close> is set exactly one
  \<open>animationend\<close> listener waits on the image, otherwise none; and the current index is a
  valid index of a carousel that has been built, which needs all three elements.
\<close>

definition navigationInvariant :: "Config \<Rightarrow> Viewer \<Rightarrow> bool" where
  "navigationInvariant cfg s =
     ((if isAnimating s then modalImageElement cfg \<and> length (listeners s) = 1
       else listeners s = []) \<and>
      (allImages s \<noteq> [] \<longrightarrow>
         ensureElementsReady cfg \<and> 0 \<le> currentImageIndex s \<and>
         currentImageIndex s < int (length (allImages s))))"

section \<open>Sample data for the scenarios\<close>

definition sampleData :: ImageData where
  "sampleData = \<lparr>dataSrc = ''a.jpg'', dataSrcOriginal = Some ''a-full.jpg'', dataAlt = ''A'',
     additionalPhotos = Some [
       \<lparr>photoSrc = ''b.jpg'', photoSrcOriginal = None, photoAlt = ''B''\<rparr>,
       \<lparr>photoSrc = ''c.jpg'', photoSrcOriginal = Some ''c-full.jpg'', photoAlt = ''C''\<rparr>]\<rparr>"

definition sampleConfig :: Config where
  "sampleConfig = \<lparr>baseUrl = ''/'', imageData = sampleData, modalElement = True,
     modalImageElement = True, modalCaptionElement = True\<rparr>"

text \<open>The three images of the sample artwork, the second one current.\<close>

definition sampleCarousel :: Viewer where
  "sampleCarousel = (collectAllImages sampleConfig initialViewer)\<lparr>currentImageIndex := 1\<rparr>"

text \<open>
  A viewport of 1000 by 800 showing an image of 2000 by 1000, and the same viewport
  before the image has loaded.
\<close>

definition sampleLayout :: Layout where
  "sampleLayout = \<lparr>innerWidth = Fin 1000, innerHeight = Fin 800,
     naturalWidth = Fin 2000, naturalHeight = Fin 1000,
     rectWidth = Fin 1000, rectHeight = Fin 500\<rparr>"

definition unloadedLayout :: Layout where
  "unloadedLayout = \<lparr>innerWidth = Fin 1000, innerHeight = Fin 800,
     naturalWidth = Fin 0, naturalHeight = Fin 0,
     rectWidth = Fin 0, rectHeight = Fin 0\<rparr>"

text \<open>The viewer zoomed in, and the same while a drag is under way.\<close>

definition zoomedViewer :: Viewer where
  "zoomedViewer = initialViewer\<lparr>zoomScale := ZOOM_MAX\<rparr>"


text \<open>
  A click on the second thumbnail, a click whose source is not in the carousel, and a page
  without the caption element.
\<close>

definition clickedSecond :: ClickedImage where
  "clickedSecond = \<lparr>datasetSrcOriginal = None, elementSrc = ''/b.jpg''\<rparr>"

definition clickedElsewhere :: ClickedImage where
  "clickedElsewhere = \<lparr>datasetSrcOriginal = Some ''/z.jpg'', elementSrc = ''/a.jpg''\<rparr>"

definition sampleConfigNoCaption :: Config where
  "sampleConfigNoCaption = sampleConfig\<lparr>modalCaptionElement := False\<rparr>"

text \<open>
  A session: open on the second image, zoom in, drag, step forward through both
  animation phases, zoom out, close.
\<close>

definition sampleEvents :: "event list" where
  "sampleEvents = [Open clickedSecond, ToggleZoom sampleLayout, StartDrag (Fin 10) (Fin 10),
     Drag sampleLayout (Fin 60) (Fin 30), Navigate 1, AnimationEnd, AnimationEnd,
     ToggleZoom sampleLayout, Close]"

text \<open>
  The zoomed viewer with a pan, and the sample carousel just after a step forward has
  been requested.
\<close>

definition pannedViewer :: Viewer where
  "pannedViewer = zoomedViewer\<lparr>panX := Fin 50, panY := Fin 20\<rparr>"

definition slidingCarousel :: Viewer where
  "slidingCarousel = sampleCarousel\<lparr>isAnimating := True, listeners := [OnSlideOutEnd 1]\<rparr>"

section \<open>Properties of the carousel index\<close>

lemma sampleCarousel_length: "length (allImages sampleCarousel) = 3"
  by (simp add: sampleCarousel_def collectAllImages_def sampleConfig_def sampleData_def Let_def)

lemma sampleCarousel_index: "currentImageIndex sampleCarousel = 1"
  by (simp add: sampleCarousel_def)

lemma updateImageIndex_allImages:
  "allImages (updateImageIndex d s) = allImages s"
  by (simp add: updateImageIndex_def Let_def)

lemma funpow_updateImageIndex_allImages:
  "allImages ((updateImageIndex d ^^ k) s) = allImages s"
  by (induction k) (simp_all add: updateImageIndex_allImages)

lemma updateImageIndex_unit_step:
  assumes "0 \<le> currentImageIndex s" "currentImageIndex s < int (length (allImages s))"
    and "d = 1 \<or> d = - 1"
  shows "currentImageIndex (updateImageIndex d s) =
           (currentImageIndex s + d) mod int (length (allImages s))"
proof -
  let ?n = "int (length (allImages s))" and ?i = "currentImageIndex s"
  from assms(3) show ?thesis
  proof
    assume d: "d = 1"
    show ?thesis
    proof (cases "?i + 1 = ?n")
      case True
      then show ?thesis using d by (simp add: updateImageIndex_def Let_def)
    next
      case False
      then have "?i + 1 < ?n" using assms(2) by simp
      then show ?thesis using d assms(1) by (simp add: updateImageIndex_def Let_def)
    qed
  next
    assume d: "d = - 1"
    show ?thesis
    proof (cases "?i = 0")
      case True
      have "0 < ?n" using assms(1,2) by linarith
      then have "(- 1) mod ?n = ?n - 1" by (rule zmod_minus1)
      then show ?thesis using d True assms(2) by (simp add: updateImageIndex_def Let_def)
    next
      case False
      then have "0 \<le> ?i - 1" "?i - 1 < ?n" using assms(1,2) by simp_all
      then show ?thesis using d by (simp add: updateImageIndex_def Let_def)
    qed
  qed
qed

lemma updateImageIndex_in_range:
  assumes "allImages s \<noteq> []"
  shows "0 \<le> currentImageIndex (updateImageIndex d s) \<and>
         currentImageIndex (updateImageIndex d s) < int (length (allImages s))"
  using assms by (simp add: updateImageIndex_def Let_def)

lemma funpow_updateImageIndex_unit:
  assumes "0 \<le> currentImageIndex s" "currentImageIndex s < int (length (allImages s))"
    and "d = 1 \<or> d = - 1"
  shows "currentImageIndex ((updateImageIndex d ^^ k) s) =
           (currentImageIndex s + int k * d) mod int (length (allImages s))"
proof (induction k)
  case 0
  show ?case using assms(1,2) by simp
next
  case (Suc k)
  let ?n = "int (length (allImages s))"
  let ?t = "(updateImageIndex d ^^ k) s"
  have len: "allImages ?t = allImages s" by (rule funpow_updateImageIndex_allImages)
  have n: "0 < ?n" using assms(1,2) by linarith
  have lo: "0 \<le> currentImageIndex ?t" using Suc.IH n by simp
  have hi: "currentImageIndex ?t < int (length (allImages ?t))" using Suc.IH n len by simp
  have "currentImageIndex (updateImageIndex d ?t) = (currentImageIndex ?t + d) mod ?n"
    using updateImageIndex_unit_step [OF lo hi assms(3)] len by simp
  also have "\<dots> = ((currentImageIndex s + int k * d) mod ?n + d) mod ?n"
    using Suc.IH by simp
  also have "\<dots> = (currentImageIndex s + int k * d + d) mod ?n"
    by (rule mod_add_left_eq)
  also have "\<dots> = (currentImageIndex s + int (Suc k) * d) mod ?n"
    by (simp add: algebra_simps)
  finally show ?case by simp
qed

text \<open>
  Claim C1. In a carousel of \<open>N \<ge> 1\<close> images, from an index \<open>i\<close> in \<open>[0, N)\<close>, \<open>k\<close> index
  updates in one direction, \<open>-1\<close> or \<open>+1\<close>, give the index \<open>(i + k * direction) mod N\<close>,
  which lies in \<open>[0, N)\<close>; a step below \<open>0\<close> lands on \<open>N - 1\<close> and a step reaching \<open>N\<close> lands
  on \<open>0\<close>.
\<close>

theorem navigate_repeated_is_modular:
  assumes "allImages s \<noteq> []"
    and "0 \<le> currentImageIndex s" and "currentImageIndex s < int (length (allImages s))"
    and "d = 1 \<or> d = - 1"
  shows "currentImageIndex ((updateImageIndex d ^^ k) s) =
           (currentImageIndex s + int k * d) mod int (length (allImages s)) \<and>
         0 \<le> currentImageIndex ((updateImageIndex d ^^ k) s) \<and>
         currentImageIndex ((updateImageIndex d ^^ k) s) < int (length (allImages s)) \<and>
         (currentImageIndex s = 0 \<longrightarrow>
            currentImageIndex (updateImageIndex (- 1) s) = int (length (allImages s)) - 1) \<and>
         (currentImageIndex s = int (length (allImages s)) - 1 \<longrightarrow>
            currentImageIndex (updateImageIndex 1 s) = 0)"
proof -
  let ?n = "int (length (allImages s))"
  have n: "0 < ?n" using assms(1) by simp
  have eq: "currentImageIndex ((updateImageIndex d ^^ k) s) =
              (currentImageIndex s + int k * d) mod ?n"
    by (rule funpow_updateImageIndex_unit [OF assms(2,3,4)])
  have lo: "0 \<le> currentImageIndex ((updateImageIndex d ^^ k) s)"
    and hi: "currentImageIndex ((updateImageIndex d ^^ k) s) < ?n"
    using eq n by simp_all
  have below: "currentImageIndex s = 0 \<longrightarrow>
      currentImageIndex (updateImageIndex (- 1) s) = ?n - 1"
    using n by (simp add: updateImageIndex_def Let_def)
  have above: "currentImageIndex s = ?n - 1 \<longrightarrow>
      currentImageIndex (updateImageIndex 1 s) = 0"
    by (simp add: updateImageIndex_def Let_def)
  from eq lo hi below above show ?thesis by blast
qed

text \<open>
  The scenario of three images opened on the second: one step forward shows the third,
  the next wraps to the first; five steps back show the third; a step back from the first
  shows the last, and a step forward from the last shows the first.
\<close>

theorem navigate_repeated_is_modular_witness:
  "allImages sampleCarousel \<noteq> [] \<and>
   0 \<le> currentImageIndex sampleCarousel \<and>
   currentImageIndex sampleCarousel < int (length (allImages sampleCarousel)) \<and>
   currentImageIndex ((updateImageIndex 1 ^^ 1) sampleCarousel) = 2 \<and>
   currentImageIndex ((updateImageIndex 1 ^^ 2) sampleCarousel) = 0 \<and>
   currentImageIndex ((updateImageIndex (- 1) ^^ 5) sampleCarousel) = 2 \<and>
   currentImageIndex (sampleCarousel\<lparr>currentImageIndex := 0\<rparr>) = 0 \<and>
   currentImageIndex (updateImageIndex (- 1) (sampleCarousel\<lparr>currentImageIndex := 0\<rparr>)) = 2 \<and>
   currentImageIndex (sampleCarousel\<lparr>currentImageIndex := 2\<rparr>) =
     int (length (allImages (sampleCarousel\<lparr>currentImageIndex := 2\<rparr>))) - 1 \<and>
   currentImageIndex (updateImageIndex 1 (sampleCarousel\<lparr>currentImageIndex := 2\<rparr>)) = 0"
proof -
  have h1: "allImages sampleCarousel \<noteq> []" using sampleCarousel_length by auto
  have h2: "0 \<le> currentImageIndex sampleCarousel" by (simp add: sampleCarousel_index)
  have h3: "currentImageIndex sampleCarousel < int (length (allImages sampleCarousel))"
    by (simp add: sampleCarousel_index sampleCarousel_length)
  have fwd: "(1::int) = 1 \<or> (1::int) = - 1" and bwd: "(- 1::int) = 1 \<or> (- 1::int) = - 1"
    by simp_all
  let ?first = "sampleCarousel\<lparr>currentImageIndex := 0\<rparr>"
  let ?last = "sampleCarousel\<lparr>currentImageIndex := 2\<rparr>"
  have f1: "allImages ?first \<noteq> []" and l1: "allImages ?last \<noteq> []" using h1 by simp_all
  have f2: "0 \<le> currentImageIndex ?first" and l2: "0 \<le> currentImageIndex ?last" by simp_all
  have f3: "currentImageIndex ?first < int (length (allImages ?first))"
    and l3: "currentImageIndex ?last < int (length (allImages ?last))"
    by (simp_all add: sampleCarousel_length)
  have a: "currentImageIndex ((updateImageIndex 1 ^^ 1) sampleCarousel) = 2"
    using navigate_repeated_is_modular [OF h1 h2 h3 fwd, of 1]
    by (simp add: sampleCarousel_index sampleCarousel_length)
  have b: "currentImageIndex ((updateImageIndex 1 ^^ 2) sampleCarousel) = 0"
    using navigate_repeated_is_modular [OF h1 h2 h3 fwd, of 2]
    by (simp add: sampleCarousel_index sampleCarousel_length)
  have c: "currentImageIndex ((updateImageIndex (- 1) ^^ 5) sampleCarousel) = 2"
    using navigate_repeated_is_modular [OF h1 h2 h3 bwd, of 5]
    by (simp add: sampleCarousel_index sampleCarousel_length)
  have d: "currentImageIndex (updateImageIndex (- 1) ?first) = 2"
    using navigate_repeated_is_modular [OF f1 f2 f3 fwd, of 0]
    by (simp add: sampleCarousel_length)
  have e: "currentImageIndex (updateImageIndex 1 ?last) = 0"
    using navigate_repeated_is_modular [OF l1 l2 l3 fwd, of 0]
    by (simp add: sampleCarousel_length)
  from h1 h2 h3 a b c d e show ?thesis by (simp add: sampleCarousel_length)
qed

text \<open>
  Claim C10. The index update is safe for every integer direction: in a carousel of
  \<open>N \<ge> 1\<close> images, from an index in \<open>[0, N)\<close>, one update gives an index in \<open>[0, N)\<close>. A sum
  at or above \<open>N\<close> collapses to \<open>0\<close> and a sum below \<open>0\<close> to \<open>N - 1\<close>, whatever the size of
  the step, so the result is not the sum modulo \<open>N\<close> in general.
\<close>

theorem updateImageIndex_range_safe:
  assumes "allImages s \<noteq> []"
    and "0 \<le> currentImageIndex s" and "currentImageIndex s < int (length (allImages s))"
  shows "0 \<le> currentImageIndex (updateImageIndex d s) \<and>
         currentImageIndex (updateImageIndex d s) < int (length (allImages s)) \<and>
         (currentImageIndex s + d \<ge> int (length (allImages s)) \<longrightarrow>
            currentImageIndex (updateImageIndex d s) = 0) \<and>
         (currentImageIndex s + d < 0 \<longrightarrow>
            currentImageIndex (updateImageIndex d s) = int (length (allImages s)) - 1) \<and>
         (0 \<le> currentImageIndex s + d \<and> currentImageIndex s + d < int (length (allImages s)) \<longrightarrow>
            currentImageIndex (updateImageIndex d s) = currentImageIndex s + d)"
  using assms by (simp add: updateImageIndex_def Let_def)

text \<open>
  A step of \<open>4\<close> from index \<open>1\<close> of three lands on \<open>0\<close>, where the sum modulo \<open>3\<close> is \<open>2\<close>; a
  step of \<open>-7\<close> lands on \<open>2\<close>, where the sum modulo \<open>3\<close> is \<open>0\<close>; a step of \<open>-1\<close> stays in
  range and lands on \<open>0\<close>.
\<close>

theorem updateImageIndex_range_safe_witness:
  "allImages sampleCarousel \<noteq> [] \<and>
   0 \<le> currentImageIndex sampleCarousel \<and>
   currentImageIndex sampleCarousel < int (length (allImages sampleCarousel)) \<and>
   currentImageIndex (updateImageIndex 4 sampleCarousel) = 0 \<and>
   (currentImageIndex sampleCarousel + 4) mod int (length (allImages sampleCarousel)) = 2 \<and>
   currentImageIndex (updateImageIndex (- 7) sampleCarousel) = 2 \<and>
   (currentImageIndex sampleCarousel - 7) mod int (length (allImages sampleCarousel)) = 0 \<and>
   currentImageIndex (updateImageIndex (- 1) sampleCarousel) = 0"
proof -
  have h1: "allImages sampleCarousel \<noteq> []" using sampleCarousel_length by auto
  have h2: "0 \<le> currentImageIndex sampleCarousel" by (simp add: sampleCarousel_index)
  have h3: "currentImageIndex sampleCarousel < int (length (allImages sampleCarousel))"
    by (simp add: sampleCarousel_index sampleCarousel_length)
  show ?thesis
    using h1 h2 h3 updateImageIndex_range_safe [OF h1 h2 h3, of 4]
      updateImageIndex_range_safe [OF h1 h2 h3, of "- 7"]
      updateImageIndex_range_safe [OF h1 h2 h3, of "- 1"]
    by (simp add: sampleCarousel_index sampleCarousel_length)
qed

section \<open>Language paths\<close>


section \<open>Pan bounds and clamping\<close>

lemmas js_cmp_defs = js_le_def js_eq_def js_gt_def js_ge_def js_max_def js_min_def
  js_isNaN_def js_isFinite_def js_sub_def signed_inf_def

lemma js_max_zero_cases:
  "js_max (Fin 0) a = NaN \<or> js_max (Fin 0) a = PInf \<or> (\<exists>x\<ge>0. js_max (Fin 0) a = Fin x)"
  by (cases a) (auto simp: js_max_def)

lemma half_excess_nonneg:
  assumes "e = NaN \<or> e = PInf \<or> (\<exists>x\<ge>0. e = Fin x)"
  shows "js_le (Fin 0) (if js_gt e (Fin 0) then js_div e (Fin 2) else Fin 0)"
  using assms by (auto simp: js_cmp_defs)

lemma calculateBoundsFromSize_nonneg:
  "js_le (Fin 0) (maxX (calculateBoundsFromSize s bw bh vw vh)) \<and>
   js_le (Fin 0) (maxY (calculateBoundsFromSize s bw bh vw vh))"
proof -
  let ?ew = "js_max (Fin 0) (js_sub (js_mul bw (zoomScale s)) vw)"
  let ?eh = "js_max (Fin 0) (js_sub (js_mul bh (zoomScale s)) vh)"
  have w: "js_le (Fin 0) (if js_gt ?ew (Fin 0) then js_div ?ew (Fin 2) else Fin 0)"
    by (rule half_excess_nonneg [OF js_max_zero_cases])
  have h: "js_le (Fin 0) (if js_gt ?eh (Fin 0) then js_div ?eh (Fin 2) else Fin 0)"
    by (rule half_excess_nonneg [OF js_max_zero_cases])
  have z: "js_le (Fin 0) (Fin 0)" by (simp add: js_le_def js_eq_def)
  show ?thesis
    unfolding calculateBoundsFromSize_def Let_def
    using w h z by (simp split: if_splits)
qed



lemma clampFinite_finite: "js_isFinite (clampFinite m p)"
  by (auto simp: clampFinite_def Let_def js_isFinite_def js_isNaN_def)

lemma constrainPan_eq:
  "constrainPan cfg lay s =
     (case calculatePanBounds cfg lay s of
        None \<Rightarrow> s\<lparr>panX := Fin 0, panY := Fin 0\<rparr>
      | Some b \<Rightarrow> s\<lparr>panX := clampFinite (maxX b) (panX s),
                       panY := clampFinite (maxY b) (panY s)\<rparr>)"
  by (auto simp: constrainPan_def calculatePanBounds_def clampFinite_def Let_def
      split: option.splits)

lemma calculatePanBounds_nonneg:
  assumes "calculatePanBounds cfg lay s = Some b"
  shows "js_le (Fin 0) (maxX b) \<and> js_le (Fin 0) (maxY b)"
  using assms calculateBoundsFromSize_nonneg
  by (auto simp: calculatePanBounds_def Let_def split: if_splits)

lemma clamp_zero:
  assumes "js_le (Fin 0) m"
  shows "js_max (js_neg m) (js_min m (Fin 0)) = Fin 0"
  using assms by (cases m) (auto simp: js_cmp_defs)

lemma calculatePanBounds_None_iff:
  "calculatePanBounds cfg lay s = None \<longleftrightarrow>
     (\<not> modalImageElement cfg \<or> \<not> isZoomedIn s \<or>
      ((js_le (naturalWidth lay) (Fin 0) \<or> js_le (naturalHeight lay) (Fin 0)) \<and>
       (js_le (js_div (rectWidth lay) (zoomScale s)) (Fin 0) \<or>
        js_le (js_div (rectHeight lay) (zoomScale s)) (Fin 0) \<or>
        js_isNaN (js_div (rectWidth lay) (zoomScale s)) \<or>
        js_isNaN (js_div (rectHeight lay) (zoomScale s)))))"
  by (auto simp: calculatePanBounds_def Let_def)

lemma js_isFinite_Fin: "js_isFinite (Fin x)"
  by (simp add: js_isFinite_def)

lemma constrainPan_finite:
  "js_isFinite (panX (constrainPan cfg lay s)) \<and> js_isFinite (panY (constrainPan cfg lay s))"
  by (simp add: constrainPan_eq clampFinite_finite js_isFinite_Fin split: option.splits)

lemma constrainPan_zoomScale: "zoomScale (constrainPan cfg lay s) = zoomScale s"
  by (simp add: constrainPan_eq split: option.splits)



lemma constrainPan_zero:
  assumes "panX s = Fin 0" "panY s = Fin 0"
  shows "panX (constrainPan cfg lay s) = Fin 0 \<and> panY (constrainPan cfg lay s) = Fin 0"
proof (cases "calculatePanBounds cfg lay s")
  case None
  then show ?thesis by (simp add: constrainPan_eq)
next
  case (Some b)
  have nn: "js_le (Fin 0) (maxX b)" "js_le (Fin 0) (maxY b)"
    using calculatePanBounds_nonneg [OF Some] by simp_all
  show ?thesis
    using Some assms clamp_zero [OF nn(1)] clamp_zero [OF nn(2)]
    by (simp add: constrainPan_eq clampFinite_def js_isNaN_def js_isFinite_def)
qed

lemma applyTransform_fields:
  "zoomScale (applyTransform cfg s) = zoomScale s"
  "panX (applyTransform cfg s) = panX s"
  "panY (applyTransform cfg s) = panY s"
  by (simp_all add: applyTransform_def)


text \<open>
  Claim C9. After \<open>constrainPan\<close> both pan components are finite numbers: a clamped
  component that is NaN or not finite is replaced by \<open>0\<close>, and where no bounds can be
  computed (the image element is missing, the view is not zoomed in, or the base
  dimensions are degenerate) both components are \<open>0\<close>.
\<close>

theorem constrainPan_always_finite:
  "js_isFinite (panX (constrainPan cfg lay s)) \<and>
   js_isFinite (panY (constrainPan cfg lay s)) \<and>
   (calculatePanBounds cfg lay s = None \<longrightarrow>
      panX (constrainPan cfg lay s) = Fin 0 \<and> panY (constrainPan cfg lay s) = Fin 0) \<and>
   (\<not> modalImageElement cfg \<or> \<not> isZoomedIn s \<or>
      ((js_le (naturalWidth lay) (Fin 0) \<or> js_le (naturalHeight lay) (Fin 0)) \<and>
       (js_le (js_div (rectWidth lay) (zoomScale s)) (Fin 0) \<or>
        js_le (js_div (rectHeight lay) (zoomScale s)) (Fin 0) \<or>
        js_isNaN (js_div (rectWidth lay) (zoomScale s)) \<or>
        js_isNaN (js_div (rectHeight lay) (zoomScale s))))
      \<longrightarrow> calculatePanBounds cfg lay s = None) \<and>
   (\<forall>b. calculatePanBounds cfg lay s = Some b \<longrightarrow>
      (let cx = js_max (js_neg (maxX b)) (js_min (maxX b) (panX s));
           cy = js_max (js_neg (maxY b)) (js_min (maxY b) (panY s))
       in panX (constrainPan cfg lay s) =
            (if js_isNaN cx \<or> \<not> js_isFinite cx then Fin 0 else cx) \<and>
          panY (constrainPan cfg lay s) =
            (if js_isNaN cy \<or> \<not> js_isFinite cy then Fin 0 else cy)))"
proof -
  have fin: "js_isFinite (panX (constrainPan cfg lay s)) \<and>
      js_isFinite (panY (constrainPan cfg lay s))"
    by (rule constrainPan_finite)
  have none: "calculatePanBounds cfg lay s = None \<longrightarrow>
      panX (constrainPan cfg lay s) = Fin 0 \<and> panY (constrainPan cfg lay s) = Fin 0"
    by (simp add: constrainPan_eq)
  have degenerate: "\<not> modalImageElement cfg \<or> \<not> isZoomedIn s \<or>
      ((js_le (naturalWidth lay) (Fin 0) \<or> js_le (naturalHeight lay) (Fin 0)) \<and>
       (js_le (js_div (rectWidth lay) (zoomScale s)) (Fin 0) \<or>
        js_le (js_div (rectHeight lay) (zoomScale s)) (Fin 0) \<or>
        js_isNaN (js_div (rectWidth lay) (zoomScale s)) \<or>
        js_isNaN (js_div (rectHeight lay) (zoomScale s))))
      \<longrightarrow> calculatePanBounds cfg lay s = None"
    using calculatePanBounds_None_iff [of cfg lay s] by blast
  have some: "\<forall>b. calculatePanBounds cfg lay s = Some b \<longrightarrow>
      (let cx = js_max (js_neg (maxX b)) (js_min (maxX b) (panX s));
           cy = js_max (js_neg (maxY b)) (js_min (maxY b) (panY s))
       in panX (constrainPan cfg lay s) =
            (if js_isNaN cx \<or> \<not> js_isFinite cx then Fin 0 else cx) \<and>
          panY (constrainPan cfg lay s) =
            (if js_isNaN cy \<or> \<not> js_isFinite cy then Fin 0 else cy))"
    by (simp add: constrainPan_eq clampFinite_def Let_def)
  from fin none degenerate some show ?thesis by blast
qed

lemma toggleZoom_zoomScale:
  "zoomScale (toggleZoom cfg lay s) =
     (if js_le (zoomScale s) ZOOM_MIN then ZOOM_MAX else ZOOM_MIN)"
  by (simp add: toggleZoom_def Let_def applyTransform_fields constrainPan_zoomScale)

lemma toggleZoom_pan:
  "panX (toggleZoom cfg lay s) = Fin 0 \<and> panY (toggleZoom cfg lay s) = Fin 0"
  by (simp add: toggleZoom_def Let_def applyTransform_fields constrainPan_zero)

text \<open>
  Claim C3. \<open>toggleZoom\<close> is a binary toggle: from zoom \<open>1\<close> it sets \<open>2.5\<close>, from any zoom
  above \<open>1\<close> it sets \<open>1\<close>, so the zoom after a toggle is \<open>1\<close> or \<open>2.5\<close> and nothing between;
  the pan is reset to \<open>(0, 0)\<close>, and clamping leaves it there.
\<close>

theorem toggleZoom_binary:
  "(zoomScale (toggleZoom cfg lay s) = Fin 1 \<or> zoomScale (toggleZoom cfg lay s) = Fin (5 / 2)) \<and>
   (zoomScale s = Fin 1 \<longrightarrow> zoomScale (toggleZoom cfg lay s) = Fin (5 / 2)) \<and>
   (js_gt (zoomScale s) (Fin 1) \<longrightarrow> zoomScale (toggleZoom cfg lay s) = Fin 1) \<and>
   panX (toggleZoom cfg lay s) = Fin 0 \<and> panY (toggleZoom cfg lay s) = Fin 0"
proof -
  have a: "zoomScale (toggleZoom cfg lay s) = Fin 1 \<or>
      zoomScale (toggleZoom cfg lay s) = Fin (5 / 2)"
    by (simp add: toggleZoom_zoomScale ZOOM_MIN_def ZOOM_MAX_def)
  have b: "zoomScale s = Fin 1 \<longrightarrow> zoomScale (toggleZoom cfg lay s) = Fin (5 / 2)"
    by (simp add: toggleZoom_zoomScale ZOOM_MIN_def ZOOM_MAX_def js_le_def js_eq_def)
  have c: "js_gt (zoomScale s) (Fin 1) \<longrightarrow> zoomScale (toggleZoom cfg lay s) = Fin 1"
    by (cases "zoomScale s")
      (auto simp: toggleZoom_zoomScale ZOOM_MIN_def ZOOM_MAX_def js_le_def js_eq_def js_gt_def)
  from a b c toggleZoom_pan [of cfg lay s] show ?thesis by blast
qed

lemmas js_eval_defs = js_cmp_defs ZOOM_MIN_def ZOOM_MAX_def ZOOM_DEFAULT_def SCROLL_SPEED_def
  isZoomedIn_def

lemma sample_bounds:
  "calculatePanBounds sampleConfig sampleLayout (zoomedViewer\<lparr>panX := a, panY := b\<rparr>) =
     Some \<lparr>maxX = Fin 750, maxY = Fin 225\<rparr>"
  by (simp add: calculatePanBounds_def calculateBoundsFromSize_def zoomedViewer_def
      sampleConfig_def sampleLayout_def initialViewer_def Let_def js_eval_defs)

lemma unloaded_bounds:
  "calculatePanBounds sampleConfig unloadedLayout (zoomedViewer\<lparr>panX := a, panY := b\<rparr>) = None"
  by (simp add: calculatePanBounds_def calculateBoundsFromSize_def zoomedViewer_def
      sampleConfig_def unloadedLayout_def initialViewer_def Let_def js_eval_defs)

text \<open>
  A pan of \<open>(NaN, +Infinity)\<close> becomes \<open>(0, 225)\<close>; before the image has loaded any pan
  becomes \<open>(0, 0)\<close>.
\<close>

theorem constrainPan_always_finite_witness:
  "calculatePanBounds sampleConfig sampleLayout (zoomedViewer\<lparr>panX := NaN, panY := PInf\<rparr>) =
     Some \<lparr>maxX = Fin 750, maxY = Fin 225\<rparr> \<and>
   panX (constrainPan sampleConfig sampleLayout (zoomedViewer\<lparr>panX := NaN, panY := PInf\<rparr>)) = Fin 0 \<and>
   panY (constrainPan sampleConfig sampleLayout (zoomedViewer\<lparr>panX := NaN, panY := PInf\<rparr>)) = Fin 225 \<and>
   calculatePanBounds sampleConfig unloadedLayout (zoomedViewer\<lparr>panX := Fin 40, panY := Fin 7\<rparr>) = None \<and>
   panX (constrainPan sampleConfig unloadedLayout (zoomedViewer\<lparr>panX := Fin 40, panY := Fin 7\<rparr>)) = Fin 0 \<and>
   panY (constrainPan sampleConfig unloadedLayout (zoomedViewer\<lparr>panX := Fin 40, panY := Fin 7\<rparr>)) = Fin 0"
proof -
  let ?s = "zoomedViewer\<lparr>panX := NaN, panY := PInf\<rparr>"
  let ?t = "zoomedViewer\<lparr>panX := Fin 40, panY := Fin 7\<rparr>"
  have b: "calculatePanBounds sampleConfig sampleLayout ?s = Some \<lparr>maxX = Fin 750, maxY = Fin 225\<rparr>"
    by (rule sample_bounds)
  have n: "calculatePanBounds sampleConfig unloadedLayout ?t = None"
    by (rule unloaded_bounds)
  have "\<forall>b. calculatePanBounds sampleConfig sampleLayout ?s = Some b \<longrightarrow>
      (let cx = js_max (js_neg (maxX b)) (js_min (maxX b) (panX ?s));
           cy = js_max (js_neg (maxY b)) (js_min (maxY b) (panY ?s))
       in panX (constrainPan sampleConfig sampleLayout ?s) =
            (if js_isNaN cx \<or> \<not> js_isFinite cx then Fin 0 else cx) \<and>
          panY (constrainPan sampleConfig sampleLayout ?s) =
            (if js_isNaN cy \<or> \<not> js_isFinite cy then Fin 0 else cy))"
    using constrainPan_always_finite [of sampleConfig sampleLayout ?s] by blast
  with b have clamped: "panX (constrainPan sampleConfig sampleLayout ?s) = Fin 0 \<and>
      panY (constrainPan sampleConfig sampleLayout ?s) = Fin 225"
    by (simp add: Let_def js_cmp_defs)
  have "calculatePanBounds sampleConfig unloadedLayout ?t = None \<longrightarrow>
      panX (constrainPan sampleConfig unloadedLayout ?t) = Fin 0 \<and>
      panY (constrainPan sampleConfig unloadedLayout ?t) = Fin 0"
    using constrainPan_always_finite [of sampleConfig unloadedLayout ?t] by blast
  with n have zero: "panX (constrainPan sampleConfig unloadedLayout ?t) = Fin 0 \<and>
      panY (constrainPan sampleConfig unloadedLayout ?t) = Fin 0"
    by blast
  from b n clamped zero show ?thesis by blast
qed

text \<open>From \<open>1\<close> the toggle gives \<open>2.5\<close>; from the intermediate \<open>1.7\<close> it gives \<open>1\<close>.\<close>

theorem toggleZoom_binary_witness:
  "zoomScale initialViewer = Fin 1 \<and>
   zoomScale (toggleZoom sampleConfig sampleLayout initialViewer) = Fin (5 / 2) \<and>
   js_gt (zoomScale (initialViewer\<lparr>zoomScale := Fin (17 / 10), panX := Fin 3\<rparr>)) (Fin 1) \<and>
   zoomScale (toggleZoom sampleConfig sampleLayout
     (initialViewer\<lparr>zoomScale := Fin (17 / 10), panX := Fin 3\<rparr>)) = Fin 1 \<and>
   panX (toggleZoom sampleConfig sampleLayout
     (initialViewer\<lparr>zoomScale := Fin (17 / 10), panX := Fin 3\<rparr>)) = Fin 0"
  using toggleZoom_binary [of sampleConfig sampleLayout initialViewer]
    toggleZoom_binary [of sampleConfig sampleLayout
      "initialViewer\<lparr>zoomScale := Fin (17 / 10), panX := Fin 3\<rparr>"]
  by (simp add: initialViewer_def js_eval_defs)


lemma onDrag_inactive:
  assumes "\<not> (isDragging (dragState s) \<and> isZoomedIn s)"
  shows "onDrag cfg lay x y s = s"
  using assms by (auto simp: onDrag_def)


lemma handleWheel_inactive:
  assumes "\<not> isZoomedIn s"
  shows "handleWheel cfg lay dx dy s = s"
  using assms by (simp add: handleWheel_def)










section \<open>Swipe gestures\<close>







section \<open>Opening the modal\<close>

lemma findIndex_spec:
  "(findIndex P xs = - 1 \<and> (\<forall>x\<in>set xs. \<not> P x)) \<or>
   (0 \<le> findIndex P xs \<and> findIndex P xs < int (length xs) \<and>
    P (xs ! nat (findIndex P xs)) \<and> (\<forall>j < nat (findIndex P xs). \<not> P (xs ! j)))"
proof (induction xs)
  case Nil
  show ?case by simp
next
  case (Cons x xs)
  show ?case
  proof (cases "P x")
    case True
    then show ?thesis by simp
  next
    case False
    from Cons.IH show ?thesis
    proof
      assume "findIndex P xs = - 1 \<and> (\<forall>x\<in>set xs. \<not> P x)"
      then show ?thesis using False by simp
    next
      assume found: "0 \<le> findIndex P xs \<and> findIndex P xs < int (length xs) \<and>
        P (xs ! nat (findIndex P xs)) \<and> (\<forall>j < nat (findIndex P xs). \<not> P (xs ! j))"
      then have n: "nat (findIndex P xs + 1) = Suc (nat (findIndex P xs))" by arith
      have "\<not> P ((x # xs) ! j)" if "j < Suc (nat (findIndex P xs))" for j
        using that found False by (cases j) simp_all
      then show ?thesis using found False n by (simp add: Let_def)
    qed
  qed
qed

lemma preload_fold_shape:
  "\<exists>c. fold (\<lambda>image. preloadImageAsset (srcOriginal image)) xs s = s\<lparr>imagePreloadCache := c\<rparr>"
proof (induction xs arbitrary: s)
  case Nil
  have "s = s\<lparr>imagePreloadCache := imagePreloadCache s\<rparr>" by simp
  then show ?case by (metis fold_simps(1))
next
  case (Cons x xs)
  obtain c0 where c0: "preloadImageAsset (srcOriginal x) s = s\<lparr>imagePreloadCache := c0\<rparr>"
    by (cases "srcOriginal x = [] \<or> srcOriginal x \<in> imagePreloadCache s")
       (auto simp: preloadImageAsset_def intro: that [of "imagePreloadCache s"])
  obtain c where "fold (\<lambda>image. preloadImageAsset (srcOriginal image)) xs
      (s\<lparr>imagePreloadCache := c0\<rparr>) = s\<lparr>imagePreloadCache := c0\<rparr>\<lparr>imagePreloadCache := c\<rparr>"
    using Cons.IH by blast
  then show ?case using c0 by auto
qed

lemma preloadCarouselImages_shape:
  "\<exists>c. preloadCarouselImages s = s\<lparr>imagePreloadCache := c\<rparr>"
proof (cases "allImages s = []")
  case True
  have "s = s\<lparr>imagePreloadCache := imagePreloadCache s\<rparr>" by simp
  then show ?thesis using True unfolding preloadCarouselImages_def by (metis (full_types))
next
  case False
  then show ?thesis using preload_fold_shape by (simp add: preloadCarouselImages_def)
qed

lemma collectAllImages_shape:
  "\<exists>x xs. collectAllImages cfg s = s\<lparr>allImages := x # xs\<rparr>"
  unfolding collectAllImages_def Let_def by blast

lemma built_sequence_shape:
  "\<exists>imgs c. preloadCarouselImages (collectAllImages cfg s) =
     s\<lparr>allImages := imgs, imagePreloadCache := c\<rparr> \<and>
     allImages (collectAllImages cfg s) = imgs \<and> imgs \<noteq> []"
proof -
  obtain x xs where a: "collectAllImages cfg s = s\<lparr>allImages := x # xs\<rparr>"
    using collectAllImages_shape by blast
  obtain c where "preloadCarouselImages (s\<lparr>allImages := x # xs\<rparr>) =
      s\<lparr>allImages := x # xs\<rparr>\<lparr>imagePreloadCache := c\<rparr>"
    using preloadCarouselImages_shape by blast
  then show ?thesis using a by auto
qed

text \<open>The state \<open>openModal\<close> leaves when the elements are present.\<close>

lemma openModal_ready:
  assumes "ensureElementsReady cfg"
  shows "\<exists>imgs c i.
     imgs = allImages (collectAllImages cfg s) \<and> imgs \<noteq> [] \<and>
     i = max 0 (findIndex (\<lambda>image. src image = or_else (datasetSrcOriginal img) (elementSrc img) \<or>
                              srcOriginal image = or_else (datasetSrcOriginal img) (elementSrc img))
                  imgs) \<and>
     0 \<le> i \<and> i < int (length imgs) \<and>
     openModal cfg img s = Inr (s\<lparr>
       currentImageIndex := i, allImages := imgs, imagePreloadCache := c,
       zoomScale := Fin 1, panX := Fin 0, panY := Fin 0,
       imgSrc := srcOriginal (imgs ! nat i), captionText := alt (imgs ! nat i),
       modalDisplay := ''block'', bodyOverflow := ''hidden'',
       cssTransform := (Fin 1, Fin 0, Fin 0)\<rparr>)"
proof -
  let ?c = "or_else (datasetSrcOriginal img) (elementSrc img)"
  let ?P = "\<lambda>image. src image = ?c \<or> srcOriginal image = ?c"
  obtain imgs c where b: "preloadCarouselImages (collectAllImages cfg s) =
      s\<lparr>allImages := imgs, imagePreloadCache := c\<rparr>"
    and a: "allImages (collectAllImages cfg s) = imgs" and ne: "imgs \<noteq> []"
    using built_sequence_shape by blast
  define i where "i = max 0 (findIndex ?P imgs)"
  have r: "0 \<le> i \<and> i < int (length imgs)"
    using findIndex_spec [of ?P imgs] ne unfolding i_def by auto
  have lt: "findIndex ?P imgs < int (length imgs)"
    using findIndex_spec [of ?P imgs] ne by auto
  have el: "modalElement cfg" "modalImageElement cfg" "modalCaptionElement cfg"
    using assms by (simp_all add: ensureElementsReady_def)
  have "openModal cfg img s = Inr (s\<lparr>
       currentImageIndex := i, allImages := imgs, imagePreloadCache := c,
       zoomScale := Fin 1, panX := Fin 0, panY := Fin 0,
       imgSrc := srcOriginal (imgs ! nat i), captionText := alt (imgs ! nat i),
       modalDisplay := ''block'', bodyOverflow := ''hidden'',
       cssTransform := (Fin 1, Fin 0, Fin 0)\<rparr>)"
    using r lt assms el ne
    by (simp add: openModal_def b Let_def findImageIndex_def showCurrentImage_def
        showModal_def resetZoom_def applyTransform_def ZOOM_DEFAULT_def i_def [symmetric])
  then show ?thesis using a r ne i_def by blast
qed

text \<open>
  Claim C8. \<open>openModal\<close> changes nothing when a required element is missing. Otherwise it
  returns, having built the carousel afresh, which always holds the main image and so is
  never empty: the current index is the first index whose image has the clicked source as
  its display or its full-resolution URL, or \<open>0\<close> when no image has it; that image and its
  caption are shown, the overlay is revealed, page scrolling is disabled, and zoom and pan
  are reset to \<open>1\<close> and \<open>(0, 0)\<close>.
\<close>

theorem openModal_opens_on_clicked_image:
  "(\<not> ensureElementsReady cfg \<longrightarrow> openModal cfg img s = Inr s) \<and>
   allImages (preloadCarouselImages (collectAllImages cfg s)) \<noteq> [] \<and>
   (ensureElementsReady cfg \<longrightarrow>
      (\<exists>s'. openModal cfg img s = Inr s' \<and>
         allImages s' = allImages (collectAllImages cfg s) \<and>
         (let clickedSrc = or_else (datasetSrcOriginal img) (elementSrc img);
              matches = (\<lambda>image. src image = clickedSrc \<or> srcOriginal image = clickedSrc);
              i = currentImageIndex s'
          in 0 \<le> i \<and> i < int (length (allImages s')) \<and>
             (if \<exists>image\<in>set (allImages s'). matches image
              then matches (allImages s' ! nat i) \<and> (\<forall>j < nat i. \<not> matches (allImages s' ! j))
              else i = 0) \<and>
             imgSrc s' = srcOriginal (allImages s' ! nat i) \<and>
             captionText s' = alt (allImages s' ! nat i)) \<and>
         modalDisplay s' = ''block'' \<and> bodyOverflow s' = ''hidden'' \<and>
         zoomScale s' = Fin 1 \<and> panX s' = Fin 0 \<and> panY s' = Fin 0))"
proof -
  have noop: "\<not> ensureElementsReady cfg \<longrightarrow> openModal cfg img s = Inr s"
    by (simp add: openModal_def)
  have nonempty: "allImages (preloadCarouselImages (collectAllImages cfg s)) \<noteq> []"
    using built_sequence_shape [of cfg s] by auto
  have opened: "\<exists>s'. openModal cfg img s = Inr s' \<and>
         allImages s' = allImages (collectAllImages cfg s) \<and>
         (let clickedSrc = or_else (datasetSrcOriginal img) (elementSrc img);
              matches = (\<lambda>image. src image = clickedSrc \<or> srcOriginal image = clickedSrc);
              i = currentImageIndex s'
          in 0 \<le> i \<and> i < int (length (allImages s')) \<and>
             (if \<exists>image\<in>set (allImages s'). matches image
              then matches (allImages s' ! nat i) \<and> (\<forall>j < nat i. \<not> matches (allImages s' ! j))
              else i = 0) \<and>
             imgSrc s' = srcOriginal (allImages s' ! nat i) \<and>
             captionText s' = alt (allImages s' ! nat i)) \<and>
         modalDisplay s' = ''block'' \<and> bodyOverflow s' = ''hidden'' \<and>
         zoomScale s' = Fin 1 \<and> panX s' = Fin 0 \<and> panY s' = Fin 0"
    if ready: "ensureElementsReady cfg"
  proof -
    let ?c = "or_else (datasetSrcOriginal img) (elementSrc img)"
    let ?P = "\<lambda>image. src image = ?c \<or> srcOriginal image = ?c"
    obtain imgs c i where imgs: "imgs = allImages (collectAllImages cfg s)"
      and i: "i = max 0 (findIndex ?P imgs)" and lo: "0 \<le> i" and hi: "i < int (length imgs)"
      and res: "openModal cfg img s = Inr (s\<lparr>
         currentImageIndex := i, allImages := imgs, imagePreloadCache := c,
         zoomScale := Fin 1, panX := Fin 0, panY := Fin 0,
         imgSrc := srcOriginal (imgs ! nat i), captionText := alt (imgs ! nat i),
         modalDisplay := ''block'', bodyOverflow := ''hidden'',
         cssTransform := (Fin 1, Fin 0, Fin 0)\<rparr>)"
      using openModal_ready [OF ready, of s img] by blast
    have found: "(if \<exists>image\<in>set imgs. ?P image
        then ?P (imgs ! nat i) \<and> (\<forall>j < nat i. \<not> ?P (imgs ! j)) else i = 0)"
      using findIndex_spec [of ?P imgs] unfolding i by (auto simp: max_def)
    show ?thesis
      unfolding res using imgs [symmetric] lo hi found by (auto simp: Let_def)
  qed
  from noop nonempty opened show ?thesis by blast
qed

lemma sample_images:
  "allImages (collectAllImages sampleConfig s) =
     [\<lparr>src = ''/a.jpg'', srcOriginal = ''/a-full.jpg'', alt = ''A''\<rparr>,
      \<lparr>src = ''/b.jpg'', srcOriginal = ''/b.jpg'', alt = ''B''\<rparr>,
      \<lparr>src = ''/c.jpg'', srcOriginal = ''/c-full.jpg'', alt = ''C''\<rparr>]"
  by (simp add: collectAllImages_def sampleConfig_def sampleData_def Let_def buildImageUrl_def
      or_else_def)

lemma sample_ready: "ensureElementsReady sampleConfig"
  by (simp add: ensureElementsReady_def sampleConfig_def)

lemma sample_open_second:
  "\<exists>s'. openModal sampleConfig clickedSecond initialViewer = Inr s' \<and>
     currentImageIndex s' = 1 \<and> imgSrc s' = ''/b.jpg'' \<and> captionText s' = ''B''"
  using openModal_ready [OF sample_ready, of initialViewer clickedSecond]
  by (auto simp: sample_images clickedSecond_def or_else_def Let_def)

lemma sample_open_elsewhere:
  "\<exists>s'. openModal sampleConfig clickedElsewhere initialViewer = Inr s' \<and>
     currentImageIndex s' = 0 \<and> imgSrc s' = ''/a-full.jpg'' \<and> captionText s' = ''A''"
  using openModal_ready [OF sample_ready, of initialViewer clickedElsewhere]
  by (auto simp: sample_images clickedElsewhere_def or_else_def Let_def)

text \<open>
  A click on the second thumbnail opens on index \<open>1\<close>; a source that is not in the carousel
  opens on index \<open>0\<close>; without the caption element nothing changes.
\<close>

theorem openModal_opens_on_clicked_image_witness:
  "ensureElementsReady sampleConfig \<and>
   (\<exists>s'. openModal sampleConfig clickedSecond initialViewer = Inr s' \<and>
      currentImageIndex s' = 1 \<and> imgSrc s' = ''/b.jpg'' \<and> captionText s' = ''B'' \<and>
      modalDisplay s' = ''block'' \<and> bodyOverflow s' = ''hidden'' \<and>
      zoomScale s' = Fin 1 \<and> panX s' = Fin 0 \<and> panY s' = Fin 0) \<and>
   (\<exists>s'. openModal sampleConfig clickedElsewhere initialViewer = Inr s' \<and>
      currentImageIndex s' = 0 \<and> imgSrc s' = ''/a-full.jpg'' \<and>
      zoomScale s' = Fin 1 \<and> panX s' = Fin 0 \<and> panY s' = Fin 0) \<and>
   \<not> ensureElementsReady sampleConfigNoCaption \<and>
   openModal sampleConfigNoCaption clickedSecond zoomedViewer = Inr zoomedViewer"
proof -
  have a: "\<exists>s'. openModal sampleConfig clickedSecond initialViewer = Inr s' \<and>
      modalDisplay s' = ''block'' \<and> bodyOverflow s' = ''hidden'' \<and>
      zoomScale s' = Fin 1 \<and> panX s' = Fin 0 \<and> panY s' = Fin 0"
    using openModal_opens_on_clicked_image [of sampleConfig clickedSecond initialViewer]
      sample_ready by blast
  have b: "\<exists>s'. openModal sampleConfig clickedElsewhere initialViewer = Inr s' \<and>
      zoomScale s' = Fin 1 \<and> panX s' = Fin 0 \<and> panY s' = Fin 0"
    using openModal_opens_on_clicked_image [of sampleConfig clickedElsewhere initialViewer]
      sample_ready by blast
  have n: "\<not> ensureElementsReady sampleConfigNoCaption"
    by (simp add: ensureElementsReady_def sampleConfigNoCaption_def)
  then have c: "openModal sampleConfigNoCaption clickedSecond zoomedViewer = Inr zoomedViewer"
    using openModal_opens_on_clicked_image [of sampleConfigNoCaption clickedSecond zoomedViewer]
    by blast
  from a sample_open_second have a': "\<exists>s'. openModal sampleConfig clickedSecond initialViewer = Inr s' \<and>
      currentImageIndex s' = 1 \<and> imgSrc s' = ''/b.jpg'' \<and> captionText s' = ''B'' \<and>
      modalDisplay s' = ''block'' \<and> bodyOverflow s' = ''hidden'' \<and>
      zoomScale s' = Fin 1 \<and> panX s' = Fin 0 \<and> panY s' = Fin 0"
    by auto
  from b sample_open_elsewhere have b': "\<exists>s'. openModal sampleConfig clickedElsewhere initialViewer = Inr s' \<and>
      currentImageIndex s' = 0 \<and> imgSrc s' = ''/a-full.jpg'' \<and>
      zoomScale s' = Fin 1 \<and> panX s' = Fin 0 \<and> panY s' = Fin 0"
    by auto
  from sample_ready a' b' n c show ?thesis by blast
qed

section \<open>The shape of each operation's result\<close>

lemma showCurrentImage_shape:
  assumes "showCurrentImage cfg s = Inr s'"
  shows "\<exists>a b. s' = s\<lparr>imgSrc := a, captionText := b\<rparr>"
proof (cases "\<not> ensureElementsReady cfg \<or> allImages s = []")
  case True
  then have "s' = s" using assms by (simp add: showCurrentImage_def)
  then have "s' = s\<lparr>imgSrc := imgSrc s, captionText := captionText s\<rparr>" by simp
  then show ?thesis by blast
next
  case False
  then show ?thesis using assms
    by (auto simp: showCurrentImage_def Let_def split: if_splits)
qed

lemma changeImage_shape:
  "changeImage cfg d s = s \<or>
   (modalImageElement cfg \<and> \<not> isAnimating s \<and> 1 < length (allImages s) \<and>
    changeImage cfg d s = s\<lparr>isAnimating := True, listeners := listeners s @ [OnSlideOutEnd d]\<rparr>)"
  by (auto simp: changeImage_def startSlideOutAnimation_def)

lemma closeModal_shape:
  "\<exists>a b. closeModal cfg s = s\<lparr>modalDisplay := a, bodyOverflow := b\<rparr>"
proof (cases "modalElement cfg")
  case True
  then have "closeModal cfg s = s\<lparr>modalDisplay := ''none'', bodyOverflow := ''auto''\<rparr>"
    by (simp add: closeModal_def hideModal_def enableBodyScroll_def)
  then show ?thesis by blast
next
  case False
  have "s = s\<lparr>modalDisplay := modalDisplay s, bodyOverflow := bodyOverflow s\<rparr>" by simp
  then show ?thesis using False unfolding closeModal_def by (metis (full_types))
qed

lemma constrainPan_shape: "\<exists>a b. constrainPan cfg lay s = s\<lparr>panX := a, panY := b\<rparr>"
  by (auto simp: constrainPan_eq split: option.splits)

lemma applyTransform_shape: "\<exists>t. applyTransform cfg s = s\<lparr>cssTransform := t\<rparr>"
proof (cases "modalImageElement cfg")
  case True
  then have "applyTransform cfg s = s\<lparr>cssTransform := (zoomScale s, panX s, panY s)\<rparr>"
    by (simp add: applyTransform_def)
  then show ?thesis by blast
next
  case False
  have "s = s\<lparr>cssTransform := cssTransform s\<rparr>" by simp
  then show ?thesis using False unfolding applyTransform_def by (metis (full_types))
qed

lemma toggleZoom_shape:
  "\<exists>z t. toggleZoom cfg lay s = s\<lparr>zoomScale := z, panX := Fin 0, panY := Fin 0, cssTransform := t\<rparr>"
proof -
  define s2 where "s2 = s\<lparr>zoomScale := (if js_le (zoomScale s) ZOOM_MIN then ZOOM_MAX else ZOOM_MIN),
    panX := Fin 0, panY := Fin 0\<rparr>"
  define s3 where "s3 = (if isZoomedIn s2 then constrainPan cfg lay s2 else s2)"
  have t: "toggleZoom cfg lay s = applyTransform cfg s3"
    by (simp add: toggleZoom_def s3_def s2_def Let_def)
  have "s3 = s2"
  proof (cases "isZoomedIn s2")
    case True
    obtain a b where ab: "constrainPan cfg lay s2 = s2\<lparr>panX := a, panY := b\<rparr>"
      using constrainPan_shape by blast
    have "panX (constrainPan cfg lay s2) = Fin 0 \<and> panY (constrainPan cfg lay s2) = Fin 0"
      by (rule constrainPan_zero) (simp_all add: s2_def)
    then have "a = Fin 0" "b = Fin 0" using ab by simp_all
    then have "constrainPan cfg lay s2 = s2" using ab by (simp add: s2_def)
    then show ?thesis using True by (simp add: s3_def)
  next
    case False
    then show ?thesis by (simp add: s3_def)
  qed
  then obtain t' where "toggleZoom cfg lay s = s2\<lparr>cssTransform := t'\<rparr>"
    using t applyTransform_shape [of cfg s2] by auto
  then have "toggleZoom cfg lay s =
      s\<lparr>zoomScale := (if js_le (zoomScale s) ZOOM_MIN then ZOOM_MAX else ZOOM_MIN),
        panX := Fin 0, panY := Fin 0, cssTransform := t'\<rparr>"
    by (simp add: s2_def)
  then show ?thesis by blast
qed

lemma onDrag_shape:
  "\<exists>h a b t. onDrag cfg lay x y s =
     s\<lparr>dragState := (dragState s)\<lparr>hasMoved := h\<rparr>, panX := a, panY := b, cssTransform := t\<rparr>"
proof (cases "isDragging (dragState s) \<and> isZoomedIn s")
  case False
  have "s = s\<lparr>dragState := (dragState s)\<lparr>hasMoved := hasMoved (dragState s)\<rparr>,
      panX := panX s, panY := panY s, cssTransform := cssTransform s\<rparr>" by simp
  moreover have "onDrag cfg lay x y s = s" using False by (auto simp: onDrag_def)
  ultimately show ?thesis by metis
next
  case True
  define h where "h = (js_gt (js_abs (js_sub x (js_add (startX (dragState s)) (panX s)))) (Fin 5) \<or>
      js_gt (js_abs (js_sub y (js_add (startY (dragState s)) (panY s)))) (Fin 5) \<or>
      hasMoved (dragState s))"
  define s2 where "s2 = s\<lparr>dragState := (dragState s)\<lparr>hasMoved := h\<rparr>,
      panX := js_sub x (startX (dragState s)), panY := js_sub y (startY (dragState s))\<rparr>"
  have od: "onDrag cfg lay x y s = applyTransform cfg (constrainPan cfg lay s2)"
    using True by (auto simp: onDrag_def Let_def s2_def h_def)
  obtain a b where "constrainPan cfg lay s2 = s2\<lparr>panX := a, panY := b\<rparr>"
    using constrainPan_shape by blast
  moreover obtain t where "applyTransform cfg (s2\<lparr>panX := a, panY := b\<rparr>) =
      s2\<lparr>panX := a, panY := b\<rparr>\<lparr>cssTransform := t\<rparr>"
    using applyTransform_shape by blast
  ultimately have "onDrag cfg lay x y s = s2\<lparr>panX := a, panY := b, cssTransform := t\<rparr>"
    using od by simp
  then have "onDrag cfg lay x y s =
      s\<lparr>dragState := (dragState s)\<lparr>hasMoved := h\<rparr>, panX := a, panY := b, cssTransform := t\<rparr>"
    by (simp add: s2_def)
  then show ?thesis by blast
qed

lemma handleWheel_shape:
  "\<exists>a b t. handleWheel cfg lay dx dy s = s\<lparr>panX := a, panY := b, cssTransform := t\<rparr>"
proof (cases "isZoomedIn s")
  case False
  have "s = s\<lparr>panX := panX s, panY := panY s, cssTransform := cssTransform s\<rparr>" by simp
  moreover have "handleWheel cfg lay dx dy s = s" using False by (simp add: handleWheel_def)
  ultimately show ?thesis by metis
next
  case True
  define s1 where "s1 = s\<lparr>panX := js_add (panX s) (js_mul dx SCROLL_SPEED),
      panY := js_add (panY s) (js_mul dy SCROLL_SPEED)\<rparr>"
  have hw: "handleWheel cfg lay dx dy s = applyTransform cfg (constrainPan cfg lay s1)"
    using True by (simp add: handleWheel_def Let_def s1_def)
  obtain a b where "constrainPan cfg lay s1 = s1\<lparr>panX := a, panY := b\<rparr>"
    using constrainPan_shape by blast
  moreover obtain t where "applyTransform cfg (s1\<lparr>panX := a, panY := b\<rparr>) =
      s1\<lparr>panX := a, panY := b\<rparr>\<lparr>cssTransform := t\<rparr>"
    using applyTransform_shape by blast
  ultimately have "handleWheel cfg lay dx dy s = s1\<lparr>panX := a, panY := b, cssTransform := t\<rparr>"
    using hw by simp
  then have "handleWheel cfg lay dx dy s = s\<lparr>panX := a, panY := b, cssTransform := t\<rparr>"
    by (simp add: s1_def)
  then show ?thesis by blast
qed

lemma startDrag_shape: "\<exists>ds. startDrag x y s = s\<lparr>dragState := ds\<rparr>"
proof (cases "isZoomedIn s")
  case True
  then show ?thesis unfolding startDrag_def by auto
next
  case False
  have "s = s\<lparr>dragState := dragState s\<rparr>" by simp
  then show ?thesis using False unfolding startDrag_def by (metis (full_types))
qed

lemma endDrag_shape: "\<exists>ds. snd (endDrag s) = s\<lparr>dragState := ds\<rparr>"
  unfolding endDrag_def snd_conv by blast

lemma updateImageIndex_shape:
  "\<exists>k. updateImageIndex d s = s\<lparr>currentImageIndex := k\<rparr> \<and>
       (allImages s \<noteq> [] \<longrightarrow> 0 \<le> k \<and> k < int (length (allImages s)))"
  by (auto simp: updateImageIndex_def Let_def)

lemma handleKeyDown_shape:
  "handleKeyDown cfg key s = s \<or> handleKeyDown cfg key s = closeModal cfg s \<or>
   (\<exists>d. handleKeyDown cfg key s = changeImage cfg d s)"
  by (auto simp: handleKeyDown_def)

lemma handleSwipeGesture_shape:
  "snd (handleSwipeGesture cfg ex ey dur s) = s \<or>
   (\<exists>d. snd (handleSwipeGesture cfg ex ey dur s) =
          (changeImage cfg d s)\<lparr>canToggleZoomOnClick := False\<rparr>)"
  by (auto simp: handleSwipeGesture_def Let_def)

section \<open>The pan is zero whenever the view is not zoomed\<close>

lemma unzoomed_at_one: "zoomScale s = Fin 1 \<Longrightarrow> \<not> isZoomedIn s"
  by (simp add: isZoomedIn_def js_gt_def ZOOM_MIN_def)

lemma view_changeImage:
  "zoomScale (changeImage cfg d s) = zoomScale s \<and> panX (changeImage cfg d s) = panX s \<and>
   panY (changeImage cfg d s) = panY s"
  using changeImage_shape [of cfg d s] by auto

lemma view_closeModal:
  "zoomScale (closeModal cfg s) = zoomScale s \<and> panX (closeModal cfg s) = panX s \<and>
   panY (closeModal cfg s) = panY s"
  using closeModal_shape [of cfg s] by auto

lemma onDrag_zoomScale: "zoomScale (onDrag cfg lay x y s) = zoomScale s"
proof -
  obtain h a b t where eq: "onDrag cfg lay x y s =
      s\<lparr>dragState := (dragState s)\<lparr>hasMoved := h\<rparr>, panX := a, panY := b, cssTransform := t\<rparr>"
    using onDrag_shape by blast
  show ?thesis unfolding eq by simp
qed

lemma handleWheel_zoomScale: "zoomScale (handleWheel cfg lay dx dy s) = zoomScale s"
proof -
  obtain a b t where eq: "handleWheel cfg lay dx dy s =
      s\<lparr>panX := a, panY := b, cssTransform := t\<rparr>"
    using handleWheel_shape by blast
  show ?thesis unfolding eq by simp
qed

lemma view_onSlideOutEnd:
  assumes "onSlideOutEnd cfg d s = Inr s'"
  shows "zoomScale s' = zoomScale s \<and> panX s' = panX s \<and> panY s' = panY s"
proof (cases "modalImageElement cfg")
  case False
  then show ?thesis using assms by (simp add: onSlideOutEnd_def)
next
  case True
  let ?s1 = "s\<lparr>listeners := remove1 (OnSlideOutEnd d) (listeners s)\<rparr>"
  obtain k where k: "updateImageIndex d ?s1 = ?s1\<lparr>currentImageIndex := k\<rparr>"
    using updateImageIndex_shape by blast
  obtain s3 where s3: "showCurrentImage cfg (?s1\<lparr>currentImageIndex := k\<rparr>) = Inr s3"
    and s': "s' = s3\<lparr>listeners := listeners s3 @ [OnSlideInEnd]\<rparr>"
    using assms True k by (auto simp: onSlideOutEnd_def Let_def split: sum.splits)
  obtain a b where "s3 = ?s1\<lparr>currentImageIndex := k\<rparr>\<lparr>imgSrc := a, captionText := b\<rparr>"
    using showCurrentImage_shape [OF s3] by blast
  then show ?thesis using s' by simp
qed

lemma view_runListener:
  assumes "runListener cfg l s = Inr s'"
  shows "zoomScale s' = zoomScale s \<and> panX s' = panX s \<and> panY s' = panY s"
proof (cases l)
  case (OnSlideOutEnd d)
  then show ?thesis using assms view_onSlideOutEnd by simp
next
  case OnSlideInEnd
  then show ?thesis using assms by (auto simp: onSlideInEnd_def)
qed

lemma view_dispatchAnimationEnd:
  assumes "dispatchAnimationEnd cfg ls s = Inr s'"
  shows "zoomScale s' = zoomScale s \<and> panX s' = panX s \<and> panY s' = panY s"
  using assms
proof (induction ls arbitrary: s)
  case Nil
  then show ?case by simp
next
  case (Cons l ls)
  show ?case
  proof (cases "l \<in> set (listeners s)")
    case False
    then show ?thesis using Cons by simp
  next
    case True
    then obtain t where t: "runListener cfg l s = Inr t"
      and rest: "dispatchAnimationEnd cfg ls t = Inr s'"
      using Cons.prems by (auto split: sum.splits)
    show ?thesis using Cons.IH [OF rest] view_runListener [OF t] by simp
  qed
qed

lemma step_preserves_panZeroWhenUnzoomed:
  assumes "panZeroWhenUnzoomed s" and "step cfg s e = Inr s'"
  shows "panZeroWhenUnzoomed s'"
proof (cases e)
  case (Open img)
  show ?thesis
  proof (cases "ensureElementsReady cfg")
    case True
    then show ?thesis
      using openModal_ready [OF True, of s img] assms(2) Open
      by (auto simp: panZeroWhenUnzoomed_def)
  next
    case False
    then show ?thesis using assms Open by (simp add: openModal_def)
  qed
next
  case (Navigate d)
  then show ?thesis using assms view_changeImage [of cfg d s]
    by (auto simp: panZeroWhenUnzoomed_def)
next
  case Close
  then show ?thesis using assms view_closeModal [of cfg s]
    by (auto simp: panZeroWhenUnzoomed_def)
next
  case (ToggleZoom lay)
  then show ?thesis using assms(2) toggleZoom_pan [of cfg lay s]
    by (auto simp: panZeroWhenUnzoomed_def)
next
  case (StartDrag x y)
  then show ?thesis using assms startDrag_shape [of x y s]
    by (auto simp: panZeroWhenUnzoomed_def)
next
  case (Drag lay x y)
  show ?thesis
  proof (cases "isDragging (dragState s) \<and> isZoomedIn s")
    case False
    then show ?thesis using assms Drag onDrag_inactive [of s cfg lay x y] by simp
  next
    case True
    have "zoomScale s' = zoomScale s" using assms(2) Drag onDrag_zoomScale by auto
    then show ?thesis using True unzoomed_at_one [of s] by (auto simp: panZeroWhenUnzoomed_def)
  qed
next
  case EndDrag
  then show ?thesis using assms endDrag_shape [of s]
    by (auto simp: panZeroWhenUnzoomed_def)
next
  case (Wheel lay dx dy)
  show ?thesis
  proof (cases "isZoomedIn s")
    case False
    then show ?thesis using assms Wheel handleWheel_inactive [of s cfg lay dx dy] by simp
  next
    case True
    have "zoomScale s' = zoomScale s" using assms(2) Wheel handleWheel_zoomScale by auto
    then show ?thesis using True unzoomed_at_one [of s] by (auto simp: panZeroWhenUnzoomed_def)
  qed
next
  case (Swipe ex ey dur)
  then show ?thesis
    using assms handleSwipeGesture_shape [of cfg ex ey dur s] view_changeImage [of cfg _ s]
    by (auto simp: panZeroWhenUnzoomed_def)
next
  case (KeyDown key)
  then show ?thesis
    using assms handleKeyDown_shape [of cfg key s] view_changeImage [of cfg _ s]
      view_closeModal [of cfg s]
    by (auto simp: panZeroWhenUnzoomed_def)
next
  case AnimationEnd
  then show ?thesis
    using assms view_dispatchAnimationEnd [of cfg "listeners s" s s']
    by (simp add: animationEnd_def panZeroWhenUnzoomed_def)
qed

lemma run_preserves_panZeroWhenUnzoomed:
  assumes "panZeroWhenUnzoomed s" and "run cfg s es = Inr t"
  shows "panZeroWhenUnzoomed t"
  using assms
proof (induction es arbitrary: s)
  case Nil
  then show ?case by simp
next
  case (Cons e es)
  then obtain s' where s': "step cfg s e = Inr s'" and rest: "run cfg s' es = Inr t"
    by (auto split: sum.splits)
  show ?case
    using Cons.IH [OF step_preserves_panZeroWhenUnzoomed [OF Cons.prems(1) s'] rest] .
qed

section \<open>One navigation at a time\<close>

lemma navigationInvariant_cong:
  assumes "isAnimating t = isAnimating s" "listeners t = listeners s"
    "allImages t = allImages s" "currentImageIndex t = currentImageIndex s"
  shows "navigationInvariant cfg t = navigationInvariant cfg s"
  using assms by (simp add: navigationInvariant_def)

lemma navigationInvariant_changeImage:
  assumes "navigationInvariant cfg s"
  shows "navigationInvariant cfg (changeImage cfg d s)"
  using assms changeImage_shape [of cfg d s]
  by (auto simp: navigationInvariant_def)

lemma navigationInvariant_closeModal:
  assumes "navigationInvariant cfg s"
  shows "navigationInvariant cfg (closeModal cfg s)"
proof -
  obtain a b where eq: "closeModal cfg s = s\<lparr>modalDisplay := a, bodyOverflow := b\<rparr>"
    using closeModal_shape by blast
  show ?thesis unfolding eq using assms by (simp add: navigationInvariant_def)
qed

lemma navigationInvariant_toggleZoom:
  assumes "navigationInvariant cfg s"
  shows "navigationInvariant cfg (toggleZoom cfg lay s)"
proof -
  obtain z t where eq: "toggleZoom cfg lay s =
      s\<lparr>zoomScale := z, panX := Fin 0, panY := Fin 0, cssTransform := t\<rparr>"
    using toggleZoom_shape by blast
  show ?thesis unfolding eq using assms by (simp add: navigationInvariant_def)
qed

lemma navigationInvariant_startDrag:
  assumes "navigationInvariant cfg s"
  shows "navigationInvariant cfg (startDrag x y s)"
proof -
  obtain ds where eq: "startDrag x y s = s\<lparr>dragState := ds\<rparr>"
    using startDrag_shape by blast
  show ?thesis unfolding eq using assms by (simp add: navigationInvariant_def)
qed

lemma navigationInvariant_endDrag:
  assumes "navigationInvariant cfg s"
  shows "navigationInvariant cfg (snd (endDrag s))"
proof -
  obtain ds where eq: "snd (endDrag s) = s\<lparr>dragState := ds\<rparr>"
    using endDrag_shape by blast
  show ?thesis unfolding eq using assms by (simp add: navigationInvariant_def)
qed

lemma navigationInvariant_onDrag:
  assumes "navigationInvariant cfg s"
  shows "navigationInvariant cfg (onDrag cfg lay x y s)"
proof -
  obtain h a b t where eq: "onDrag cfg lay x y s =
      s\<lparr>dragState := (dragState s)\<lparr>hasMoved := h\<rparr>, panX := a, panY := b, cssTransform := t\<rparr>"
    using onDrag_shape by blast
  show ?thesis unfolding eq using assms by (simp add: navigationInvariant_def)
qed

lemma navigationInvariant_handleWheel:
  assumes "navigationInvariant cfg s"
  shows "navigationInvariant cfg (handleWheel cfg lay dx dy s)"
proof -
  obtain a b t where eq: "handleWheel cfg lay dx dy s =
      s\<lparr>panX := a, panY := b, cssTransform := t\<rparr>"
    using handleWheel_shape by blast
  show ?thesis unfolding eq using assms by (simp add: navigationInvariant_def)
qed

lemma navigationInvariant_handleSwipeGesture:
  assumes "navigationInvariant cfg s"
  shows "navigationInvariant cfg (snd (handleSwipeGesture cfg ex ey dur s))"
  using handleSwipeGesture_shape [of cfg ex ey dur s]
proof
  assume "snd (handleSwipeGesture cfg ex ey dur s) = s"
  then show ?thesis using assms by simp
next
  assume "\<exists>d. snd (handleSwipeGesture cfg ex ey dur s) =
      (changeImage cfg d s)\<lparr>canToggleZoomOnClick := False\<rparr>"
  then obtain d where eq: "snd (handleSwipeGesture cfg ex ey dur s) =
      (changeImage cfg d s)\<lparr>canToggleZoomOnClick := False\<rparr>" by blast
  have "navigationInvariant cfg ((changeImage cfg d s)\<lparr>canToggleZoomOnClick := False\<rparr>) =
      navigationInvariant cfg (changeImage cfg d s)"
    by (rule navigationInvariant_cong) simp_all
  then show ?thesis unfolding eq using navigationInvariant_changeImage [OF assms] by simp
qed

lemma navigationInvariant_handleKeyDown:
  assumes "navigationInvariant cfg s"
  shows "navigationInvariant cfg (handleKeyDown cfg key s)"
  using handleKeyDown_shape [of cfg key s] assms navigationInvariant_closeModal [OF assms]
    navigationInvariant_changeImage [OF assms]
  by auto

lemma navigationInvariant_openModal:
  assumes "navigationInvariant cfg s"
  shows "\<exists>s'. openModal cfg img s = Inr s' \<and> navigationInvariant cfg s'"
proof (cases "ensureElementsReady cfg")
  case False
  then show ?thesis using assms by (simp add: openModal_def)
next
  case True
  obtain imgs c i where "imgs \<noteq> []" "0 \<le> i" "i < int (length imgs)"
    and res: "openModal cfg img s = Inr (s\<lparr>
       currentImageIndex := i, allImages := imgs, imagePreloadCache := c,
       zoomScale := Fin 1, panX := Fin 0, panY := Fin 0,
       imgSrc := srcOriginal (imgs ! nat i), captionText := alt (imgs ! nat i),
       modalDisplay := ''block'', bodyOverflow := ''hidden'',
       cssTransform := (Fin 1, Fin 0, Fin 0)\<rparr>)"
    using openModal_ready [OF True, of s img] by blast
  then show ?thesis unfolding res using assms True by (simp add: navigationInvariant_def)
qed

text \<open>What the end of the slide-out does: the index moves, the image is swapped, and the
  listener for the end of the slide-in takes the place of the one that ran.\<close>

lemma animationEnd_slide_out:
  assumes "navigationInvariant cfg s" and "listeners s = [OnSlideOutEnd d]"
  shows "\<exists>a b. animationEnd cfg s =
       Inr (s\<lparr>currentImageIndex := currentImageIndex (updateImageIndex d s),
              imgSrc := a, captionText := b, listeners := [OnSlideInEnd]\<rparr>) \<and>
     (allImages s \<noteq> [] \<longrightarrow>
        a = srcOriginal (allImages s ! nat (currentImageIndex (updateImageIndex d s))) \<and>
        b = alt (allImages s ! nat (currentImageIndex (updateImageIndex d s))))"
proof -
  define k where "k = currentImageIndex (updateImageIndex d s)"
  have el: "modalImageElement cfg" using assms by (auto simp: navigationInvariant_def split: if_splits)
  have u: "updateImageIndex d (s\<lparr>listeners := []\<rparr>) = s\<lparr>listeners := [], currentImageIndex := k\<rparr>"
    by (simp add: k_def updateImageIndex_def Let_def)
  have ae: "animationEnd cfg s =
      (case showCurrentImage cfg (s\<lparr>listeners := [], currentImageIndex := k\<rparr>) of
         Inl e \<Rightarrow> Inl e
       | Inr s3 \<Rightarrow> Inr (s3\<lparr>listeners := listeners s3 @ [OnSlideInEnd]\<rparr>))"
    using el assms(2) u by (simp add: animationEnd_def onSlideOutEnd_def Let_def split: sum.splits)
  show ?thesis
  proof (cases "allImages s = []")
    case True
    then have "animationEnd cfg s = Inr (s\<lparr>currentImageIndex := k, imgSrc := imgSrc s,
        captionText := captionText s, listeners := [OnSlideInEnd]\<rparr>)"
      unfolding ae by (simp add: showCurrentImage_def)
    then show ?thesis using True unfolding k_def by blast
  next
    case False
    then have ready: "ensureElementsReady cfg" using assms(1) by (simp add: navigationInvariant_def)
    have "0 \<le> k \<and> k < int (length (allImages s))"
      using updateImageIndex_in_range [OF False, of d] by (simp add: k_def)
    then have "animationEnd cfg s = Inr (s\<lparr>currentImageIndex := k,
        imgSrc := srcOriginal (allImages s ! nat k), captionText := alt (allImages s ! nat k),
        listeners := [OnSlideInEnd]\<rparr>)"
      unfolding ae using False ready by (simp add: showCurrentImage_def Let_def)
    then show ?thesis unfolding k_def by blast
  qed
qed

lemma animationEnd_slide_in:
  assumes "navigationInvariant cfg s" and "listeners s = [OnSlideInEnd]"
  shows "animationEnd cfg s = Inr (s\<lparr>listeners := [], isAnimating := False\<rparr>)"
proof -
  have "modalImageElement cfg" using assms by (auto simp: navigationInvariant_def split: if_splits)
  then show ?thesis using assms(2) by (simp add: animationEnd_def onSlideInEnd_def)
qed

lemma navigationInvariant_animationEnd:
  assumes "navigationInvariant cfg s"
  shows "\<exists>s'. animationEnd cfg s = Inr s' \<and> navigationInvariant cfg s'"
proof (cases "listeners s")
  case Nil
  then show ?thesis using assms by (simp add: animationEnd_def)
next
  case (Cons l ls)
  then have anim: "isAnimating s" and el: "modalImageElement cfg" and ls: "ls = []"
    using assms by (auto simp: navigationInvariant_def split: if_splits)
  show ?thesis
  proof (cases l)
    case (OnSlideOutEnd d)
    then have l: "listeners s = [OnSlideOutEnd d]" using Cons ls by simp
    obtain a b where eq: "animationEnd cfg s =
       Inr (s\<lparr>currentImageIndex := currentImageIndex (updateImageIndex d s),
              imgSrc := a, captionText := b, listeners := [OnSlideInEnd]\<rparr>)"
      using animationEnd_slide_out [OF assms l] by blast
    have "allImages s \<noteq> [] \<longrightarrow> 0 \<le> currentImageIndex (updateImageIndex d s) \<and>
        currentImageIndex (updateImageIndex d s) < int (length (allImages s))"
      using updateImageIndex_in_range by blast
    then show ?thesis unfolding eq using assms anim el by (simp add: navigationInvariant_def)
  next
    case OnSlideInEnd
    then have l: "listeners s = [OnSlideInEnd]" using Cons ls by simp
    show ?thesis unfolding animationEnd_slide_in [OF assms l]
      using assms by (simp add: navigationInvariant_def)
  qed
qed

lemma step_navigationInvariant:
  assumes "navigationInvariant cfg s"
  shows "\<exists>s'. step cfg s e = Inr s' \<and> navigationInvariant cfg s'"
proof (cases e)
  case (Open img)
  then show ?thesis using navigationInvariant_openModal [OF assms] by simp
next
  case (Navigate d)
  then show ?thesis using navigationInvariant_changeImage [OF assms] by simp
next
  case Close
  then show ?thesis using navigationInvariant_closeModal [OF assms] by simp
next
  case (ToggleZoom lay)
  then show ?thesis using navigationInvariant_toggleZoom [OF assms] by simp
next
  case (StartDrag x y)
  then show ?thesis using navigationInvariant_startDrag [OF assms] by simp
next
  case (Drag lay x y)
  then show ?thesis using navigationInvariant_onDrag [OF assms] by simp
next
  case EndDrag
  then show ?thesis using navigationInvariant_endDrag [OF assms] by simp
next
  case (Wheel lay dx dy)
  then show ?thesis using navigationInvariant_handleWheel [OF assms] by simp
next
  case (Swipe ex ey dur)
  then show ?thesis using navigationInvariant_handleSwipeGesture [OF assms] by simp
next
  case (KeyDown key)
  then show ?thesis using navigationInvariant_handleKeyDown [OF assms] by simp
next
  case AnimationEnd
  then show ?thesis using navigationInvariant_animationEnd [OF assms] by simp
qed

lemma run_navigationInvariant:
  assumes "navigationInvariant cfg s"
  shows "\<exists>t. run cfg s es = Inr t \<and> navigationInvariant cfg t"
  using assms
proof (induction es arbitrary: s)
  case Nil
  then show ?case by simp
next
  case (Cons e es)
  obtain s' where s': "step cfg s e = Inr s'" and inv: "navigationInvariant cfg s'"
    using step_navigationInvariant [OF Cons.prems] by blast
  show ?case using Cons.IH [OF inv] s' by simp
qed

lemma navigationInvariant_initial: "navigationInvariant cfg initialViewer"
  by (simp add: navigationInvariant_def initialViewer_def)

lemma step_keeps_image:
  assumes "step cfg s e = Inr s'" and "e \<noteq> AnimationEnd" and "\<forall>img. e \<noteq> Open img"
  shows "currentImageIndex s' = currentImageIndex s \<and> imgSrc s' = imgSrc s \<and>
         captionText s' = captionText s"
proof -
  have ci: "currentImageIndex (changeImage cfg d s) = currentImageIndex s \<and>
      imgSrc (changeImage cfg d s) = imgSrc s \<and> captionText (changeImage cfg d s) = captionText s"
    for d using changeImage_shape [of cfg d s] by auto
  have cl: "currentImageIndex (closeModal cfg s) = currentImageIndex s \<and>
      imgSrc (closeModal cfg s) = imgSrc s \<and> captionText (closeModal cfg s) = captionText s"
    using closeModal_shape [of cfg s] by auto
  show ?thesis
  proof (cases e)
    case (Open img)
    then show ?thesis using assms(3) by simp
  next
    case (Navigate d)
    then show ?thesis using assms(1) ci by auto
  next
    case Close
    then show ?thesis using assms(1) cl by auto
  next
    case (ToggleZoom lay)
    then show ?thesis using assms(1) toggleZoom_shape [of cfg lay s] by auto
  next
    case (StartDrag x y)
    then show ?thesis using assms(1) startDrag_shape [of x y s] by auto
  next
    case (Drag lay x y)
    then show ?thesis using assms(1) onDrag_shape [of cfg lay x y s] by auto
  next
    case EndDrag
    then show ?thesis using assms(1) endDrag_shape [of s] by auto
  next
    case (Wheel lay dx dy)
    then show ?thesis using assms(1) handleWheel_shape [of cfg lay dx dy s] by auto
  next
    case (Swipe ex ey dur)
    then show ?thesis using assms(1) handleSwipeGesture_shape [of cfg ex ey dur s] ci by auto
  next
    case (KeyDown key)
    then show ?thesis using assms(1) handleKeyDown_shape [of cfg key s] ci cl by auto
  next
    case AnimationEnd
    then show ?thesis using assms(2) by simp
  qed
qed

text \<open>
  Claim C7. \<open>changeImage\<close> changes nothing (index, displayed image and animation flag
  included) when the carousel has at most one image or an animation is in flight.
  Otherwise, in every state the viewer can be in, it sets the flag and registers the
  slide-out listener, leaving index and image as they are. So at most one navigation is
  in flight: in every state reached from the initial one the flag is set exactly when one
  listener waits, and never more than one. No operation other than opening changes the
  index or the image, except the end of the slide-out, which moves the index, swaps the
  image and hands over to the slide-in; the end of the slide-in clears the flag. No run
  of the viewer throws.
\<close>

theorem changeImage_one_at_a_time:
  "(length (allImages s) \<le> 1 \<or> isAnimating s \<longrightarrow> changeImage cfg d s = s) \<and>
   (navigationInvariant cfg s \<and> 1 < length (allImages s) \<and> \<not> isAnimating s \<longrightarrow>
      changeImage cfg d s = s\<lparr>isAnimating := True, listeners := [OnSlideOutEnd d]\<rparr>) \<and>
   navigationInvariant cfg initialViewer \<and>
   (navigationInvariant cfg s \<longrightarrow>
      (\<exists>s'. step cfg s e = Inr s' \<and> navigationInvariant cfg s')) \<and>
   (\<exists>t. run cfg initialViewer es = Inr t \<and> navigationInvariant cfg t \<and>
        length (listeners t) \<le> 1 \<and> (isAnimating t \<longleftrightarrow> listeners t \<noteq> [])) \<and>
   (step cfg s e = Inr s' \<and> e \<noteq> AnimationEnd \<and> (\<forall>img. e \<noteq> Open img) \<longrightarrow>
      currentImageIndex s' = currentImageIndex s \<and> imgSrc s' = imgSrc s \<and>
      captionText s' = captionText s) \<and>
   (navigationInvariant cfg s \<and> listeners s = [OnSlideOutEnd d] \<longrightarrow>
      (\<exists>a b. animationEnd cfg s =
           Inr (s\<lparr>currentImageIndex := currentImageIndex (updateImageIndex d s),
                  imgSrc := a, captionText := b, listeners := [OnSlideInEnd]\<rparr>) \<and>
         (allImages s \<noteq> [] \<longrightarrow>
            a = srcOriginal (allImages s ! nat (currentImageIndex (updateImageIndex d s))) \<and>
            b = alt (allImages s ! nat (currentImageIndex (updateImageIndex d s)))))) \<and>
   (navigationInvariant cfg s \<and> listeners s = [OnSlideInEnd] \<longrightarrow>
      animationEnd cfg s = Inr (s\<lparr>listeners := [], isAnimating := False\<rparr>))"
proof -
  have noop: "length (allImages s) \<le> 1 \<or> isAnimating s \<longrightarrow> changeImage cfg d s = s"
    by (auto simp: changeImage_def)
  have start: "navigationInvariant cfg s \<and> 1 < length (allImages s) \<and> \<not> isAnimating s \<longrightarrow>
      changeImage cfg d s = s\<lparr>isAnimating := True, listeners := [OnSlideOutEnd d]\<rparr>"
    by (auto simp: changeImage_def startSlideOutAnimation_def navigationInvariant_def
        ensureElementsReady_def)
  have stp: "navigationInvariant cfg s \<longrightarrow>
      (\<exists>s'. step cfg s e = Inr s' \<and> navigationInvariant cfg s')"
    using step_navigationInvariant by blast
  obtain t where t: "run cfg initialViewer es = Inr t" and inv: "navigationInvariant cfg t"
    using run_navigationInvariant [OF navigationInvariant_initial] by blast
  have "length (listeners t) \<le> 1 \<and> (isAnimating t \<longleftrightarrow> listeners t \<noteq> [])"
    using inv by (auto simp: navigationInvariant_def split: if_splits)
  then have runs: "\<exists>t. run cfg initialViewer es = Inr t \<and> navigationInvariant cfg t \<and>
        length (listeners t) \<le> 1 \<and> (isAnimating t \<longleftrightarrow> listeners t \<noteq> [])"
    using t inv by blast
  have keeps: "step cfg s e = Inr s' \<and> e \<noteq> AnimationEnd \<and> (\<forall>img. e \<noteq> Open img) \<longrightarrow>
      currentImageIndex s' = currentImageIndex s \<and> imgSrc s' = imgSrc s \<and>
      captionText s' = captionText s"
    using step_keeps_image by blast
  have out: "navigationInvariant cfg s \<and> listeners s = [OnSlideOutEnd d] \<longrightarrow>
      (\<exists>a b. animationEnd cfg s =
           Inr (s\<lparr>currentImageIndex := currentImageIndex (updateImageIndex d s),
                  imgSrc := a, captionText := b, listeners := [OnSlideInEnd]\<rparr>) \<and>
         (allImages s \<noteq> [] \<longrightarrow>
            a = srcOriginal (allImages s ! nat (currentImageIndex (updateImageIndex d s))) \<and>
            b = alt (allImages s ! nat (currentImageIndex (updateImageIndex d s)))))"
    using animationEnd_slide_out by blast
  have inn: "navigationInvariant cfg s \<and> listeners s = [OnSlideInEnd] \<longrightarrow>
      animationEnd cfg s = Inr (s\<lparr>listeners := [], isAnimating := False\<rparr>)"
    using animationEnd_slide_in by blast
  from noop start navigationInvariant_initial [of cfg] stp runs keeps out inn
  show ?thesis by blast
qed

lemma sampleCarousel_idle:
  "\<not> isAnimating sampleCarousel \<and> listeners sampleCarousel = []"
  by (simp add: sampleCarousel_def collectAllImages_def initialViewer_def Let_def)

lemma sampleCarousel_invariant: "navigationInvariant sampleConfig sampleCarousel"
  using sampleCarousel_idle sample_ready
  by (simp add: navigationInvariant_def sampleCarousel_length sampleCarousel_index)

lemma slidingCarousel_invariant: "navigationInvariant sampleConfig slidingCarousel"
  using sample_ready
  by (simp add: navigationInvariant_def slidingCarousel_def sampleCarousel_length
      sampleCarousel_index sampleConfig_def)

lemma slidingCarousel_next:
  "currentImageIndex (updateImageIndex 1 slidingCarousel) = 2 \<and>
   allImages slidingCarousel \<noteq> [] \<and>
   srcOriginal (allImages slidingCarousel ! nat 2) = ''/c-full.jpg''"
  by (simp add: updateImageIndex_def Let_def slidingCarousel_def sampleCarousel_index
      sampleCarousel_length)
     (simp add: sampleCarousel_def sample_images)

text \<open>
  In the sample carousel a step forward sets the flag and keeps index \<open>1\<close>; a second
  request meanwhile changes nothing, nor does a request on an empty carousel; the end of
  the slide-out moves to index \<open>2\<close> and shows the third image.
\<close>

theorem changeImage_one_at_a_time_witness:
  "navigationInvariant sampleConfig sampleCarousel \<and>
   1 < length (allImages sampleCarousel) \<and> \<not> isAnimating sampleCarousel \<and>
   changeImage sampleConfig 1 sampleCarousel = slidingCarousel \<and>
   isAnimating slidingCarousel \<and> currentImageIndex slidingCarousel = 1 \<and>
   changeImage sampleConfig (- 1) slidingCarousel = slidingCarousel \<and>
   length (allImages initialViewer) \<le> 1 \<and>
   changeImage sampleConfig 1 initialViewer = initialViewer \<and>
   navigationInvariant sampleConfig slidingCarousel \<and>
   listeners slidingCarousel = [OnSlideOutEnd 1] \<and>
   (\<exists>b. animationEnd sampleConfig slidingCarousel =
      Inr (slidingCarousel\<lparr>currentImageIndex := 2, imgSrc := ''/c-full.jpg'',
             captionText := b, listeners := [OnSlideInEnd]\<rparr>))"
proof -
  have i: "navigationInvariant sampleConfig sampleCarousel" by (rule sampleCarousel_invariant)
  have n: "1 < length (allImages sampleCarousel)" by (simp add: sampleCarousel_length)
  have a: "\<not> isAnimating sampleCarousel" using sampleCarousel_idle by simp
  have go: "changeImage sampleConfig 1 sampleCarousel = slidingCarousel"
    using changeImage_one_at_a_time [of sampleCarousel sampleConfig 1] i n a
    by (simp add: slidingCarousel_def)
  have a2: "isAnimating slidingCarousel" by (simp add: slidingCarousel_def)
  have ix: "currentImageIndex slidingCarousel = 1"
    by (simp add: slidingCarousel_def sampleCarousel_index)
  have stay: "changeImage sampleConfig (- 1) slidingCarousel = slidingCarousel"
    using changeImage_one_at_a_time [of slidingCarousel sampleConfig "- 1"] a2 by blast
  have e: "length (allImages initialViewer) \<le> 1" by (simp add: initialViewer_def)
  then have none: "changeImage sampleConfig 1 initialViewer = initialViewer"
    using changeImage_one_at_a_time [of initialViewer sampleConfig 1] by blast
  have i2: "navigationInvariant sampleConfig slidingCarousel" by (rule slidingCarousel_invariant)
  have l: "listeners slidingCarousel = [OnSlideOutEnd 1]" by (simp add: slidingCarousel_def)
  have "\<exists>a b. animationEnd sampleConfig slidingCarousel =
         Inr (slidingCarousel\<lparr>currentImageIndex := currentImageIndex (updateImageIndex 1 slidingCarousel),
                imgSrc := a, captionText := b, listeners := [OnSlideInEnd]\<rparr>) \<and>
       (allImages slidingCarousel \<noteq> [] \<longrightarrow>
          a = srcOriginal (allImages slidingCarousel !
                 nat (currentImageIndex (updateImageIndex 1 slidingCarousel))) \<and>
          b = alt (allImages slidingCarousel !
                 nat (currentImageIndex (updateImageIndex 1 slidingCarousel))))"
    using changeImage_one_at_a_time [of slidingCarousel sampleConfig 1] i2 l by blast
  then have out: "\<exists>b. animationEnd sampleConfig slidingCarousel =
      Inr (slidingCarousel\<lparr>currentImageIndex := 2, imgSrc := ''/c-full.jpg'',
             captionText := b, listeners := [OnSlideInEnd]\<rparr>)"
    using slidingCarousel_next by auto
  from i n a go a2 ix stay e none i2 l out show ?thesis by blast
qed

section \<open>Zoom and pan over whole runs\<close>

text \<open>
  Claim C4. "Zoom \<open>1\<close> implies pan \<open>(0, 0)\<close>" is an invariant of the viewer: it holds
  initially and after \<open>resetZoom\<close>, every operation (open, navigate, close, toggle zoom,
  drag, wheel pan, swipe, key press, animation end) preserves it, and so it holds after
  every run from the initial state, none of which throws.
\<close>

theorem pan_zero_when_unzoomed_is_invariant:
  "panZeroWhenUnzoomed initialViewer \<and>
   panZeroWhenUnzoomed (resetZoom cfg s) \<and>
   (panZeroWhenUnzoomed s \<and> step cfg s e = Inr s' \<longrightarrow> panZeroWhenUnzoomed s') \<and>
   (\<exists>t. run cfg initialViewer es = Inr t \<and> panZeroWhenUnzoomed t)"
proof -
  have init: "panZeroWhenUnzoomed initialViewer"
    by (simp add: panZeroWhenUnzoomed_def initialViewer_def)
  have reset: "panZeroWhenUnzoomed (resetZoom cfg s)"
    by (simp add: panZeroWhenUnzoomed_def resetZoom_def applyTransform_fields)
  have stp: "panZeroWhenUnzoomed s \<and> step cfg s e = Inr s' \<longrightarrow> panZeroWhenUnzoomed s'"
    using step_preserves_panZeroWhenUnzoomed by blast
  obtain t where t: "run cfg initialViewer es = Inr t"
    using run_navigationInvariant [OF navigationInvariant_initial] by blast
  then have "panZeroWhenUnzoomed t"
    using run_preserves_panZeroWhenUnzoomed [OF init] by blast
  with init reset stp t show ?thesis by blast
qed

lemma sampleEvents_run:
  "(case run sampleConfig initialViewer sampleEvents of
      Inr t \<Rightarrow> zoomScale t = Fin 1 \<and> panX t = Fin 0 \<and> panY t = Fin 0 \<and>
        currentImageIndex t = 2 \<and> imgSrc t = ''/c-full.jpg'' \<and> \<not> isAnimating t
    | Inl _ \<Rightarrow> False)"
  by code_simp

text \<open>
  Zooming out of a view panned to \<open>(50, 20)\<close> leaves zoom \<open>1\<close> and pan \<open>(0, 0)\<close>, and so
  does the sample session.
\<close>

theorem pan_zero_when_unzoomed_is_invariant_witness:
  "panZeroWhenUnzoomed pannedViewer \<and> panX pannedViewer = Fin 50 \<and>
   step sampleConfig pannedViewer (ToggleZoom sampleLayout) =
     Inr (toggleZoom sampleConfig sampleLayout pannedViewer) \<and>
   zoomScale (toggleZoom sampleConfig sampleLayout pannedViewer) = Fin 1 \<and>
   panZeroWhenUnzoomed (toggleZoom sampleConfig sampleLayout pannedViewer) \<and>
   panX (toggleZoom sampleConfig sampleLayout pannedViewer) = Fin 0 \<and>
   panY (toggleZoom sampleConfig sampleLayout pannedViewer) = Fin 0 \<and>
   (\<exists>t. run sampleConfig initialViewer sampleEvents = Inr t \<and> panZeroWhenUnzoomed t \<and>
        zoomScale t = Fin 1 \<and> panX t = Fin 0 \<and> panY t = Fin 0)"
proof -
  let ?s' = "toggleZoom sampleConfig sampleLayout pannedViewer"
  have z: "zoomScale pannedViewer = Fin (5 / 2)"
    by (simp add: pannedViewer_def zoomedViewer_def ZOOM_MAX_def)
  then have inv: "panZeroWhenUnzoomed pannedViewer" by (simp add: panZeroWhenUnzoomed_def)
  have p: "panX pannedViewer = Fin 50" by (simp add: pannedViewer_def)
  have st: "step sampleConfig pannedViewer (ToggleZoom sampleLayout) = Inr ?s'" by simp
  note inst = pan_zero_when_unzoomed_is_invariant
    [of sampleConfig pannedViewer "ToggleZoom sampleLayout" ?s' sampleEvents]
  have inv': "panZeroWhenUnzoomed ?s'" using inst inv st by blast
  have z': "zoomScale ?s' = Fin 1"
    using z by (simp add: toggleZoom_zoomScale ZOOM_MIN_def js_le_def js_eq_def)
  have pan': "panX ?s' = Fin 0 \<and> panY ?s' = Fin 0"
    using inv' z' by (simp add: panZeroWhenUnzoomed_def)
  obtain t where t: "run sampleConfig initialViewer sampleEvents = Inr t"
    and ti: "panZeroWhenUnzoomed t"
    using inst by blast
  have tz: "zoomScale t = Fin 1" using sampleEvents_run t by simp
  then have "panX t = Fin 0 \<and> panY t = Fin 0" using ti by (simp add: panZeroWhenUnzoomed_def)
  with t ti tz have r: "\<exists>t. run sampleConfig initialViewer sampleEvents = Inr t \<and>
      panZeroWhenUnzoomed t \<and> zoomScale t = Fin 1 \<and> panX t = Fin 0 \<and> panY t = Fin 0"
    by blast
  from inv p st z' inv' pan' r show ?thesis by blast
qed

end
